theory Spec2Isabelle
  imports Main "HOL-Library.Word"
begin

unbundle bit_operations_syntax

text \<open>Recursive calls under a pattern-matching \<open>let\<close> are stated with the projections of
  the pair.\<close>

lemma case_prod_proj_cong [fundef_cong]:
  "p = q \<Longrightarrow> f (fst q) (snd q) = g (fst q) (snd q) \<Longrightarrow> case_prod f p = case_prod g q"
  by (simp add: case_prod_beta)

section \<open>Data model of the compiler (compiler.c)\<close>

subsection \<open>Tokens\<close>

text \<open>
  The token kinds are the indices of the rule table \<open>rules[]\<close> of compiler.c. A token
  points into the source buffer (\<open>start\<close>, \<open>length\<close>); the model keeps the characters it
  points at as \<open>lexeme\<close>.
\<close>

datatype TokenType =
    TOKEN_LEFT_PAREN | TOKEN_RIGHT_PAREN | TOKEN_LEFT_BRACE | TOKEN_RIGHT_BRACE
  | TOKEN_COMMA | TOKEN_DOT | TOKEN_MINUS | TOKEN_PLUS | TOKEN_SEMICOLON | TOKEN_SLASH
  | TOKEN_STAR | TOKEN_BANG | TOKEN_BANG_EQUAL | TOKEN_EQUAL | TOKEN_EQUAL_EQUAL
  | TOKEN_GREATER | TOKEN_GREATER_EQUAL | TOKEN_LESS | TOKEN_LESS_EQUAL
  | TOKEN_IDENTIFIER | TOKEN_STRING | TOKEN_NUMBER | TOKEN_AND | TOKEN_CLASS | TOKEN_ELSE
  | TOKEN_FALSE | TOKEN_FOR | TOKEN_FUN | TOKEN_IF | TOKEN_NIL | TOKEN_OR | TOKEN_PRINT
  | TOKEN_RETURN | TOKEN_SUPER | TOKEN_THIS | TOKEN_TRUE | TOKEN_VAR | TOKEN_WHILE
  | TOKEN_ERROR | TOKEN_EOF

record Token =
  ttype :: TokenType
  lexeme :: string
  line :: int

subsection \<open>Bytecode, chunks, values and function objects\<close>

text \<open>
  The numbering of the opcodes is declared in chunk.h, which is not among the sources, so
  a byte of a chunk is either an opcode, kept symbolic, or an operand byte.
\<close>

datatype OpCode =
    OP_CONSTANT | OP_NIL | OP_TRUE | OP_FALSE | OP_POP | OP_GET_LOCAL | OP_SET_LOCAL
  | OP_GET_GLOBAL | OP_DEFINE_GLOBAL | OP_SET_GLOBAL | OP_GET_UPVALUE | OP_SET_UPVALUE
  | OP_GET_PROPERTY | OP_SET_PROPERTY | OP_GET_SUPER | OP_EQUAL | OP_GREATER | OP_LESS
  | OP_ADD | OP_SUBTRACT | OP_MULTIPLY | OP_DIVIDE | OP_NOT | OP_NEGATE | OP_PRINT
  | OP_JUMP | OP_JUMP_IF_FALSE | OP_LOOP | OP_CALL | OP_INVOKE | OP_SUPER_INVOKE
  | OP_CLOSURE | OP_CLOSE_UPVALUE | OP_RETURN | OP_CLASS | OP_INHERIT | OP_METHOD

datatype Byte = Op OpCode | Raw "8 word"

text \<open>
  A number constant is the double that \<open>strtod\<close> reads from the lexeme; the model keeps the
  lexeme. A function object is held by value: the chunk of a finished function is never
  written again.
\<close>

datatype Value = NUMBER_VAL string | STRING_VAL string | FUNCTION_VAL ObjFunction
  and ObjFunction =
    ObjFunction (arity: int) (upvalueCount: int) (chunk: Chunk) (fname: "string option")
  and Chunk = Chunk (code: "Byte list") (lines: "int list") (constants: "Value list")

definition count :: "Chunk \<Rightarrow> int" where
  "count ch = int (length (code ch))"

text \<open>Modelled from the spec: the chunk writer of chunk.c (append a byte with its line,
  append a constant and return its index) and \<open>newFunction\<close> of object.c.\<close>

definition writeChunk :: "Chunk \<Rightarrow> Byte \<Rightarrow> int \<Rightarrow> Chunk" where
  "writeChunk ch b ln = Chunk (code ch @ [b]) (lines ch @ [ln]) (constants ch)"

definition addConstant :: "Chunk \<Rightarrow> Value \<Rightarrow> int \<times> Chunk" where
  "addConstant ch v =
     (int (length (constants ch)), Chunk (code ch) (lines ch) (constants ch @ [v]))"

definition newFunction :: ObjFunction where
  "newFunction = ObjFunction 0 0 (Chunk [] [] []) None"

definition set_chunk :: "Chunk \<Rightarrow> ObjFunction \<Rightarrow> ObjFunction" where
  "set_chunk ch f = ObjFunction (arity f) (upvalueCount f) ch (fname f)"

definition set_arity :: "int \<Rightarrow> ObjFunction \<Rightarrow> ObjFunction" where
  "set_arity n f = ObjFunction n (upvalueCount f) (chunk f) (fname f)"

definition set_upvalueCount :: "int \<Rightarrow> ObjFunction \<Rightarrow> ObjFunction" where
  "set_upvalueCount n f = ObjFunction (arity f) n (chunk f) (fname f)"

definition set_fname :: "string option \<Rightarrow> ObjFunction \<Rightarrow> ObjFunction" where
  "set_fname n f = ObjFunction (arity f) (upvalueCount f) (chunk f) n"

subsection \<open>Parser, locals, upvalues, frames, class scopes\<close>

record Parser =
  current :: Token
  previous :: Token
  hadError :: bool
  panicMode :: bool

definition PREC_NONE :: nat where "PREC_NONE = 0"
definition PREC_ASSIGNMENT :: nat where "PREC_ASSIGNMENT = 1"
definition PREC_OR :: nat where "PREC_OR = 2"
definition PREC_AND :: nat where "PREC_AND = 3"
definition PREC_EQUALITY :: nat where "PREC_EQUALITY = 4"
definition PREC_COMPARISON :: nat where "PREC_COMPARISON = 5"
definition PREC_TERM :: nat where "PREC_TERM = 6"
definition PREC_FACTOR :: nat where "PREC_FACTOR = 7"
definition PREC_UNARY :: nat where "PREC_UNARY = 8"
definition PREC_CALL :: nat where "PREC_CALL = 9"
definition PREC_PRIMARY :: nat where "PREC_PRIMARY = 10"

lemmas PREC_defs = PREC_NONE_def PREC_ASSIGNMENT_def PREC_OR_def PREC_AND_def
  PREC_EQUALITY_def PREC_COMPARISON_def PREC_TERM_def PREC_FACTOR_def PREC_UNARY_def
  PREC_CALL_def PREC_PRIMARY_def

text \<open>The functions a rule of the table can point to.\<close>

datatype ParseFn =
    Fn_grouping | Fn_call | Fn_dot | Fn_unary | Fn_binary | Fn_variable | Fn_string
  | Fn_number | Fn_and | Fn_or | Fn_literal | Fn_super | Fn_this

record ParseRule =
  prefix :: "ParseFn option"
  infix_rule :: "ParseFn option"
  precedence :: nat

record Local =
  name :: Token
  depth :: int
  isCaptured :: bool

record Upvalue =
  index :: "8 word"
  isLocal :: bool

datatype FunctionType = TYPE_FUNCTION | TYPE_INITIALIZER | TYPE_METHOD | TYPE_SCRIPT

text \<open>
  A frame. \<open>locals\<close> holds the entries \<open>0 .. localCount - 1\<close> of the C array and
  \<open>upvalues\<close> the entries below \<open>function->upvalueCount\<close>; the entries above are never
  read before they are written. The link \<open>enclosing\<close> is kept by the state below.
\<close>

record Compiler =
  func :: ObjFunction
  ftype :: FunctionType
  locals :: "Local list"
  upvalues :: "Upvalue list"
  scopeDepth :: int

definition UINT8_COUNT :: int where "UINT8_COUNT = 256"
definition UINT8_MAX :: int where "UINT8_MAX = 255"
definition UINT16_MAX :: int where "UINT16_MAX = 65535"

definition localCount :: "Compiler \<Rightarrow> int" where
  "localCount c = int (length (locals c))"

text \<open>\<open>locals[i]\<close>, when \<open>i\<close> is an index of the live part of the array.\<close>

definition localAt :: "Compiler \<Rightarrow> int \<Rightarrow> Local option" where
  "localAt c i = (if 0 \<le> i \<and> i < localCount c then Some (locals c ! nat i) else None)"

record ClassCompiler =
  className :: Token
  hasSuperclass :: bool

text \<open>What \<open>errorAt\<close> prints to stderr: the line, the place and the message.\<close>

datatype Place = AtEnd | AtNothing | AtLexeme string

datatype Report = Report int Place string

text \<open>
  The global state: the tokens the scanner has still to deliver, \<open>parser\<close>, the frame
  \<open>current\<close> points to (\<open>compiler\<close>) with the chain of its enclosing frames, innermost
  first, the chain of class scopes from \<open>currentClass\<close> (empty for NULL), and what was
  written to stderr. \<open>faults\<close> records where the C code left defined behaviour: an
  access to \<open>locals\<close> outside its live entries, a write outside the code written so far, a
  call through a null rule.
\<close>

datatype Fault = LocalsOutOfBounds | CodeOutOfBounds | NullRule

record State =
  scanner :: "Token list"
  parser :: Parser
  compiler :: Compiler
  enclosing :: "Compiler list"
  currentClass :: "ClassCompiler list"
  stderr :: "Report list"
  faults :: "Fault list"

section \<open>Errors and the token stream\<close>

definition errorAt :: "Token \<Rightarrow> string \<Rightarrow> State \<Rightarrow> State" where
  "errorAt token message s =
     (if panicMode (parser s) then s
      else s\<lparr>parser := (parser s)\<lparr>panicMode := True, hadError := True\<rparr>,
             stderr := stderr s @
               [Report (line token)
                  (if ttype token = TOKEN_EOF then AtEnd
                   else if ttype token = TOKEN_ERROR then AtNothing
                   else AtLexeme (lexeme token))
                  message]\<rparr>)"

definition error :: "string \<Rightarrow> State \<Rightarrow> State" where
  "error message s = errorAt (previous (parser s)) message s"

definition errorAtCurrent :: "string \<Rightarrow> State \<Rightarrow> State" where
  "errorAtCurrent message s = errorAt (current (parser s)) message s"

text \<open>Modelled from the spec: \<open>scanToken\<close> of scanner.c delivers the next token, and the
  end-of-input token once the source is used up.\<close>

definition scanToken :: "State \<Rightarrow> Token \<times> State" where
  "scanToken s =
     (case scanner s of
        [] \<Rightarrow> (\<lparr>ttype = TOKEN_EOF, lexeme = [], line = 0\<rparr>, s)
      | t # ts \<Rightarrow> (t, s\<lparr>scanner := ts\<rparr>))"

function advanceLoop :: "State \<Rightarrow> State" where
  "advanceLoop s =
     (let (t, s1) = scanToken s;
          s2 = s1\<lparr>parser := (parser s1)\<lparr>current := t\<rparr>\<rparr>
      in if ttype t \<noteq> TOKEN_ERROR then s2
         else advanceLoop (errorAtCurrent (lexeme t) s2))"
  by pat_completeness auto
termination
  by (relation "measure (\<lambda>s. length (scanner s))")
     (auto simp: scanToken_def errorAtCurrent_def errorAt_def split: list.splits if_splits)

declare advanceLoop.simps [simp del]

definition advance :: "State \<Rightarrow> State" where
  "advance s = advanceLoop (s\<lparr>parser := (parser s)\<lparr>previous := current (parser s)\<rparr>\<rparr>)"

definition consume :: "TokenType \<Rightarrow> string \<Rightarrow> State \<Rightarrow> State" where
  "consume t message s =
     (if ttype (current (parser s)) = t then advance s else errorAtCurrent message s)"

definition check :: "TokenType \<Rightarrow> State \<Rightarrow> bool" where
  "check t s = (ttype (current (parser s)) = t)"

definition match :: "TokenType \<Rightarrow> State \<Rightarrow> bool \<times> State" where
  "match t s = (if \<not> check t s then (False, s) else (True, advance s))"

section \<open>Emitting bytecode\<close>

definition currentChunk :: "State \<Rightarrow> Chunk" where
  "currentChunk s = chunk (func (compiler s))"

definition set_currentChunk :: "Chunk \<Rightarrow> State \<Rightarrow> State" where
  "set_currentChunk ch s =
     s\<lparr>compiler := (compiler s)\<lparr>func := set_chunk ch (func (compiler s))\<rparr>\<rparr>"

definition emitByte :: "Byte \<Rightarrow> State \<Rightarrow> State" where
  "emitByte byte s =
     set_currentChunk (writeChunk (currentChunk s) byte (line (previous (parser s)))) s"

definition emitBytes :: "Byte \<Rightarrow> Byte \<Rightarrow> State \<Rightarrow> State" where
  "emitBytes byte1 byte2 s = emitByte byte2 (emitByte byte1 s)"

definition emitReturn :: "State \<Rightarrow> State" where
  "emitReturn s =
     emitByte (Op OP_RETURN)
       (if ftype (compiler s) = TYPE_INITIALIZER then emitBytes (Op OP_GET_LOCAL) (Raw 0) s
        else emitByte (Op OP_NIL) s)"

definition makeConstant :: "Value \<Rightarrow> State \<Rightarrow> 8 word \<times> State" where
  "makeConstant v s =
     (let (constant, ch) = addConstant (currentChunk s) v;
          s1 = set_currentChunk ch s
      in if constant > UINT8_MAX then (0, error ''Too many constants in one chunk.'' s1)
         else (word_of_int constant, s1))"

definition emitConstant :: "Value \<Rightarrow> State \<Rightarrow> State" where
  "emitConstant v s = (let (c, s1) = makeConstant v s in emitBytes (Op OP_CONSTANT) (Raw c) s1)"

definition emitJump :: "Byte \<Rightarrow> State \<Rightarrow> int \<times> State" where
  "emitJump instruction s =
     (let s1 = emitBytes (Raw 0xff) (Raw 0xff) (emitByte instruction s)
      in (count (currentChunk s1) - 2, s1))"

text \<open>The two bytes are written into the code array at \<open>offset\<close> and \<open>offset + 1\<close>; outside
  the bytes written so far that is a fault.\<close>

definition patchJump :: "int \<Rightarrow> State \<Rightarrow> State" where
  "patchJump offset s =
     (let jump = count (currentChunk s) - offset - 2;
          s1 = (if jump > UINT16_MAX then error ''Too much code to jump over.'' s else s);
          ch = currentChunk s1
      in if 0 \<le> offset \<and> offset + 1 < count ch then
           set_currentChunk
             (Chunk ((code ch)[nat offset := Raw (word_of_int (drop_bit 8 jump AND 0xff)),
                               nat (offset + 1) := Raw (word_of_int (jump AND 0xff))])
                (lines ch) (constants ch)) s1
         else s1\<lparr>faults := faults s1 @ [CodeOutOfBounds]\<rparr>)"

definition emitLoop :: "int \<Rightarrow> State \<Rightarrow> State" where
  "emitLoop loopStart s =
     (let s1 = emitByte (Op OP_LOOP) s;
          offset = count (currentChunk s1) - loopStart + 2;
          s2 = (if offset > UINT16_MAX then error ''Loop body too large.'' s1 else s1)
      in emitBytes (Raw (word_of_int (drop_bit 8 offset AND 0xff)))
           (Raw (word_of_int (offset AND 0xff))) s2)"

section \<open>Frames and scopes\<close>

text \<open>The fields \<open>type\<close> and \<open>line\<close> of a synthetic token stay uninitialised in C and are
  never read; the model fills them with fixed values.\<close>

definition syntheticToken :: "string \<Rightarrow> Token" where
  "syntheticToken text = \<lparr>ttype = TOKEN_ERROR, lexeme = text, line = 0\<rparr>"

text \<open>The frame that \<open>initCompiler\<close> fills in.\<close>

definition newCompiler :: "FunctionType \<Rightarrow> Parser \<Rightarrow> Compiler" where
  "newCompiler type p =
     \<lparr>func = (if type \<noteq> TYPE_SCRIPT
                     then set_fname (Some (lexeme (previous p))) newFunction else newFunction),
      ftype = type,
      locals = [\<lparr>name = syntheticToken (if type \<noteq> TYPE_FUNCTION then ''this'' else []),
                  depth = 0, isCaptured = False\<rparr>],
      upvalues = [],
      scopeDepth = 0\<rparr>"

definition initCompiler :: "FunctionType \<Rightarrow> State \<Rightarrow> State" where
  "initCompiler type s =
     s\<lparr>enclosing := compiler s # enclosing s, compiler := newCompiler type (parser s)\<rparr>"

text \<open>\<open>current = current->enclosing\<close>: for the outermost frame that is NULL, and nothing
  reads \<open>current\<close> afterwards; the model leaves the finished frame in place there.\<close>

definition endCompiler :: "State \<Rightarrow> ObjFunction \<times> State" where
  "endCompiler s =
     (let s1 = emitReturn s;
          f = func (compiler s1)
      in (f, case enclosing s1 of [] \<Rightarrow> s1
             | c # cs \<Rightarrow> s1\<lparr>compiler := c, enclosing := cs\<rparr>))"

definition beginScope :: "State \<Rightarrow> State" where
  "beginScope s = s\<lparr>compiler := (compiler s)\<lparr>scopeDepth := scopeDepth (compiler s) + 1\<rparr>\<rparr>"

text \<open>The loop of \<open>endScope\<close>:
  \<^verbatim>\<open>while (current->localCount >= 0 &&
         current->locals[current->localCount - 1].depth > current->scopeDepth)\<close>\<close>

function endScopeLoop :: "State \<Rightarrow> State" where
  "endScopeLoop s =
     (let c = compiler s in
      if localCount c \<ge> 0 then
        (case localAt c (localCount c - 1) of
           None \<Rightarrow> s\<lparr>faults := faults s @ [LocalsOutOfBounds]\<rparr>
         | Some l \<Rightarrow>
             if depth l > scopeDepth c then
               (let s1 = (if isCaptured l then emitByte (Op OP_CLOSE_UPVALUE) s
                          else emitByte (Op OP_POP) s)
                in endScopeLoop
                     (s1\<lparr>compiler := (compiler s1)\<lparr>locals := butlast (locals (compiler s1))\<rparr>\<rparr>))
             else s)
      else s)"
  by pat_completeness auto
termination
  by (relation "measure (\<lambda>s. length (locals (compiler s)))")
     (auto simp: localAt_def localCount_def emitByte_def set_currentChunk_def
           split: if_splits)

declare endScopeLoop.simps [simp del]

definition endScope :: "State \<Rightarrow> State" where
  "endScope s =
     endScopeLoop (s\<lparr>compiler := (compiler s)\<lparr>scopeDepth := scopeDepth (compiler s) - 1\<rparr>\<rparr>)"

section \<open>Variables\<close>

definition identifierConstant :: "Token \<Rightarrow> State \<Rightarrow> 8 word \<times> State" where
  "identifierConstant nm s = makeConstant (STRING_VAL (lexeme nm)) s"

definition identifiersEqual :: "Token \<Rightarrow> Token \<Rightarrow> bool" where
  "identifiersEqual a b =
     (if length (lexeme a) \<noteq> length (lexeme b) then False else lexeme a = lexeme b)"

definition addLocal :: "Token \<Rightarrow> State \<Rightarrow> State" where
  "addLocal nm s =
     (if localCount (compiler s) = UINT8_COUNT
      then error ''Too many local variables in function.'' s
      else s\<lparr>compiler := (compiler s)\<lparr>locals := locals (compiler s) @
                  [\<lparr>name = nm, depth = -1, isCaptured = False\<rparr>]\<rparr>\<rparr>)"

text \<open>The loop of \<open>declareVariable\<close>, \<open>for (int i = localCount - 1; i >= 0; i--)\<close>: the
  first argument is \<open>i + 1\<close>.\<close>

fun declareLoop :: "nat \<Rightarrow> Token \<Rightarrow> State \<Rightarrow> State" where
  "declareLoop 0 nm s = s"
| "declareLoop (Suc i) nm s =
     (let local = locals (compiler s) ! i in
      if depth local \<noteq> -1 \<and> depth local < scopeDepth (compiler s) then s
      else declareLoop i nm
             (if identifiersEqual nm (name local)
              then error ''Already variable with this name in this scope.'' s else s))"

definition declareVariable :: "State \<Rightarrow> State" where
  "declareVariable s =
     (if scopeDepth (compiler s) = 0 then s
      else let nm = previous (parser s)
           in addLocal nm (declareLoop (length (locals (compiler s))) nm s))"

text \<open>The loop of \<open>resolveLocal\<close>, from the top of the array down: the first argument is
  \<open>i + 1\<close>.\<close>

fun resolveLocalLoop :: "nat \<Rightarrow> Compiler \<Rightarrow> Token \<Rightarrow> State \<Rightarrow> int \<times> State" where
  "resolveLocalLoop 0 c nm s = (-1, s)"
| "resolveLocalLoop (Suc i) c nm s =
     (let local = locals c ! i in
      if identifiersEqual nm (name local) then
        (int i, if depth local = -1
                then error ''Can't read local variable in it's own initializer.'' s else s)
      else resolveLocalLoop i c nm s)"

definition resolveLocal :: "Compiler \<Rightarrow> Token \<Rightarrow> State \<Rightarrow> int \<times> State" where
  "resolveLocal c nm s = resolveLocalLoop (length (locals c)) c nm s"

text \<open>The search loop of \<open>addUpvalue\<close>, from index \<open>i\<close> on.\<close>

fun findUpvalue :: "Upvalue list \<Rightarrow> int \<Rightarrow> 8 word \<Rightarrow> bool \<Rightarrow> int option" where
  "findUpvalue [] i idx isLoc = None"
| "findUpvalue (u # us) i idx isLoc =
     (if index u = idx \<and> isLocal u = isLoc then Some i else findUpvalue us (i + 1) idx isLoc)"

text \<open>\<open>addUpvalue\<close> works on the frame it is given and reports through the parser.\<close>

definition addUpvalue :: "Compiler \<Rightarrow> 8 word \<Rightarrow> bool \<Rightarrow> State \<Rightarrow> int \<times> Compiler \<times> State" where
  "addUpvalue c idx isLoc s =
     (let upvalueCount' = upvalueCount (func c);
          live = take (nat upvalueCount') (upvalues c)
      in case findUpvalue live 0 idx isLoc of
           Some i \<Rightarrow> (i, c, s)
         | None \<Rightarrow>
             if upvalueCount' = UINT8_COUNT
             then (0, c, error ''Too many closure variables in function.'' s)
             else (upvalueCount',
                   c\<lparr>upvalues := live @ [\<lparr>index = idx, isLocal = isLoc\<rparr>],
                     func := set_upvalueCount (upvalueCount' + 1) (func c)\<rparr>,
                   s))"

text \<open>\<open>resolveUpvalue\<close> for the frame \<open>c\<close> whose enclosing frames are \<open>es\<close>, innermost
  first: it returns the index with the frame and the chain as it leaves them.\<close>

fun resolveUpvalue ::
  "Compiler \<Rightarrow> Compiler list \<Rightarrow> Token \<Rightarrow> State \<Rightarrow> int \<times> Compiler \<times> Compiler list \<times> State" where
  "resolveUpvalue c [] nm s = (-1, c, [], s)"
| "resolveUpvalue c (e # es) nm s =
     (let (local, s1) = resolveLocal e nm s in
      if local \<noteq> -1 then
        (let e1 = e\<lparr>locals := (locals e)[nat local := (locals e ! nat local)\<lparr>isCaptured := True\<rparr>]\<rparr>;
             (i, c1, s2) = addUpvalue c (word_of_int local) True s1
         in (i, c1, e1 # es, s2))
      else
        (let (upvalue, e1, es1, s2) = resolveUpvalue e es nm s1 in
         if upvalue \<noteq> -1 then
           (let (i, c1, s3) = addUpvalue c (word_of_int upvalue) False s2
            in (i, c1, e1 # es1, s3))
         else (-1, c, e1 # es1, s2)))"

definition markInitialized :: "State \<Rightarrow> State" where
  "markInitialized s =
     (let c = compiler s in
      if scopeDepth c = 0 then s
      else case localAt c (localCount c - 1) of
             None \<Rightarrow> s\<lparr>faults := faults s @ [LocalsOutOfBounds]\<rparr>
           | Some l \<Rightarrow>
               s\<lparr>compiler := c\<lparr>locals := (locals c)[nat (localCount c - 1) :=
                                     l\<lparr>depth := scopeDepth c\<rparr>]\<rparr>\<rparr>)"

definition defineVariable :: "8 word \<Rightarrow> State \<Rightarrow> State" where
  "defineVariable global s =
     (if scopeDepth (compiler s) > 0 then markInitialized s
      else emitBytes (Op OP_DEFINE_GLOBAL) (Raw global) s)"

definition parseVariable :: "string \<Rightarrow> State \<Rightarrow> 8 word \<times> State" where
  "parseVariable errorMessage s =
     (let s1 = declareVariable (consume TOKEN_IDENTIFIER errorMessage s)
      in if scopeDepth (compiler s1) > 0 then (0, s1)
         else identifierConstant (previous (parser s1)) s1)"

text \<open>The first half of \<open>namedVariable\<close>: which instructions and which operand.\<close>

definition resolveVariable :: "Token \<Rightarrow> State \<Rightarrow> (OpCode \<times> OpCode \<times> int) \<times> State" where
  "resolveVariable nm s =
     (let (arg, s1) = resolveLocal (compiler s) nm s in
      if arg \<noteq> -1 then ((OP_GET_LOCAL, OP_SET_LOCAL, arg), s1)
      else
        (let (arg, c1, es1, s2) = resolveUpvalue (compiler s1) (enclosing s1) nm s1;
             s3 = s2\<lparr>compiler := c1, enclosing := es1\<rparr>
         in if arg \<noteq> -1 then ((OP_GET_UPVALUE, OP_SET_UPVALUE, arg), s3)
            else (let (arg, s4) = identifierConstant nm s3
                  in ((OP_GET_GLOBAL, OP_SET_GLOBAL, uint arg), s4))))"

section \<open>The rule table\<close>

definition rule :: "ParseFn option \<Rightarrow> ParseFn option \<Rightarrow> nat \<Rightarrow> ParseRule" where
  "rule p i n = \<lparr>prefix = p, infix_rule = i, precedence = n\<rparr>"

fun rules :: "TokenType \<Rightarrow> ParseRule" where
  "rules TOKEN_LEFT_PAREN = rule (Some Fn_grouping) (Some Fn_call) PREC_CALL"
| "rules TOKEN_RIGHT_PAREN = rule None None PREC_NONE"
| "rules TOKEN_LEFT_BRACE = rule None None PREC_NONE"
| "rules TOKEN_RIGHT_BRACE = rule None None PREC_NONE"
| "rules TOKEN_COMMA = rule None None PREC_NONE"
| "rules TOKEN_DOT = rule None (Some Fn_dot) PREC_CALL"
| "rules TOKEN_MINUS = rule (Some Fn_unary) (Some Fn_binary) PREC_TERM"
| "rules TOKEN_PLUS = rule None (Some Fn_binary) PREC_TERM"
| "rules TOKEN_SEMICOLON = rule None None PREC_NONE"
| "rules TOKEN_SLASH = rule None (Some Fn_binary) PREC_FACTOR"
| "rules TOKEN_STAR = rule None (Some Fn_binary) PREC_FACTOR"
| "rules TOKEN_BANG = rule (Some Fn_unary) None PREC_NONE"
| "rules TOKEN_BANG_EQUAL = rule None (Some Fn_binary) PREC_EQUALITY"
| "rules TOKEN_EQUAL = rule None None PREC_NONE"
| "rules TOKEN_EQUAL_EQUAL = rule None (Some Fn_binary) PREC_EQUALITY"
| "rules TOKEN_GREATER = rule None (Some Fn_binary) PREC_COMPARISON"
| "rules TOKEN_GREATER_EQUAL = rule None (Some Fn_binary) PREC_COMPARISON"
| "rules TOKEN_LESS = rule None (Some Fn_binary) PREC_COMPARISON"
| "rules TOKEN_LESS_EQUAL = rule None (Some Fn_binary) PREC_COMPARISON"
| "rules TOKEN_IDENTIFIER = rule (Some Fn_variable) None PREC_NONE"
| "rules TOKEN_STRING = rule (Some Fn_string) None PREC_NONE"
| "rules TOKEN_NUMBER = rule (Some Fn_number) None PREC_NONE"
| "rules TOKEN_AND = rule None (Some Fn_and) PREC_AND"
| "rules TOKEN_CLASS = rule None None PREC_NONE"
| "rules TOKEN_ELSE = rule None None PREC_NONE"
| "rules TOKEN_FALSE = rule (Some Fn_literal) None PREC_NONE"
| "rules TOKEN_FOR = rule None None PREC_NONE"
| "rules TOKEN_FUN = rule None None PREC_NONE"
| "rules TOKEN_IF = rule None None PREC_NONE"
| "rules TOKEN_NIL = rule (Some Fn_literal) None PREC_NONE"
| "rules TOKEN_OR = rule None (Some Fn_or) PREC_OR"
| "rules TOKEN_PRINT = rule None None PREC_NONE"
| "rules TOKEN_RETURN = rule None None PREC_NONE"
| "rules TOKEN_SUPER = rule (Some Fn_super) None PREC_NONE"
| "rules TOKEN_THIS = rule (Some Fn_this) None PREC_NONE"
| "rules TOKEN_TRUE = rule (Some Fn_literal) None PREC_NONE"
| "rules TOKEN_VAR = rule None None PREC_NONE"
| "rules TOKEN_WHILE = rule None None PREC_NONE"
| "rules TOKEN_ERROR = rule None None PREC_NONE"
| "rules TOKEN_EOF = rule None None PREC_NONE"

definition getRule :: "TokenType \<Rightarrow> ParseRule" where
  "getRule operatorType = rules operatorType"

section \<open>Expressions\<close>

definition number :: "bool \<Rightarrow> State \<Rightarrow> State" where
  "number canAssign s = emitConstant (NUMBER_VAL (lexeme (previous (parser s)))) s"

text \<open>The string constant is the lexeme without its first and its last character (the
  quotes).\<close>

definition string :: "bool \<Rightarrow> State \<Rightarrow> State" where
  "string canAssign s =
     emitConstant (STRING_VAL (take (length (lexeme (previous (parser s))) - 2)
                                 (drop 1 (lexeme (previous (parser s)))))) s"

definition literal :: "bool \<Rightarrow> State \<Rightarrow> State" where
  "literal canAssign s =
     (let t = ttype (previous (parser s)) in
      if t = TOKEN_FALSE then emitByte (Op OP_FALSE) s
      else if t = TOKEN_NIL then emitByte (Op OP_NIL) s
      else if t = TOKEN_TRUE then emitByte (Op OP_TRUE) s
      else s)"

text \<open>The instruction that \<open>binary\<close> and \<open>unary\<close> emit after their operand.\<close>

definition binaryOp :: "TokenType \<Rightarrow> State \<Rightarrow> State" where
  "binaryOp operatorType s =
     (if operatorType = TOKEN_BANG_EQUAL then emitBytes (Op OP_EQUAL) (Op OP_NOT) s
      else if operatorType = TOKEN_EQUAL_EQUAL then emitByte (Op OP_EQUAL) s
      else if operatorType = TOKEN_GREATER then emitByte (Op OP_GREATER) s
      else if operatorType = TOKEN_GREATER_EQUAL then emitBytes (Op OP_LESS) (Op OP_NOT) s
      else if operatorType = TOKEN_LESS then emitByte (Op OP_LESS) s
      else if operatorType = TOKEN_LESS_EQUAL then emitBytes (Op OP_GREATER) (Op OP_NOT) s
      else if operatorType = TOKEN_PLUS then emitByte (Op OP_ADD) s
      else if operatorType = TOKEN_MINUS then emitByte (Op OP_SUBTRACT) s
      else if operatorType = TOKEN_STAR then emitByte (Op OP_MULTIPLY) s
      else if operatorType = TOKEN_SLASH then emitByte (Op OP_DIVIDE) s
      else s)"

definition unaryOp :: "TokenType \<Rightarrow> State \<Rightarrow> State" where
  "unaryOp operatorType s =
     (if operatorType = TOKEN_BANG then emitByte (Op OP_NOT) s
      else if operatorType = TOKEN_MINUS then emitByte (Op OP_NEGATE) s
      else s)"

text \<open>
  The Pratt parser. \<open>infixLoop\<close> is the \<open>while\<close> loop of \<open>parsePrecedence\<close>, \<open>callRule\<close>
  the call through the function pointer of a rule, \<open>argumentLoop\<close> the \<open>do \<dots> while\<close> loop
  of \<open>argumentList\<close>. A rule without an infix function has precedence \<open>PREC_NONE\<close>, so
  the loop calls a null pointer only when \<open>parsePrecedence\<close> is given \<open>PREC_NONE\<close>.
\<close>

function parsePrecedence :: "nat \<Rightarrow> State \<Rightarrow> State"
  and infixLoop :: "nat \<Rightarrow> bool \<Rightarrow> State \<Rightarrow> State"
  and callRule :: "ParseFn \<Rightarrow> bool \<Rightarrow> State \<Rightarrow> State"
  and expression :: "State \<Rightarrow> State"
  and binary :: "bool \<Rightarrow> State \<Rightarrow> State"
  and unary :: "bool \<Rightarrow> State \<Rightarrow> State"
  and call :: "bool \<Rightarrow> State \<Rightarrow> State"
  and dot :: "bool \<Rightarrow> State \<Rightarrow> State"
  and grouping :: "bool \<Rightarrow> State \<Rightarrow> State"
  and variable :: "bool \<Rightarrow> State \<Rightarrow> State"
  and this' :: "bool \<Rightarrow> State \<Rightarrow> State"
  and and' :: "bool \<Rightarrow> State \<Rightarrow> State"
  and or' :: "bool \<Rightarrow> State \<Rightarrow> State"
  and super' :: "bool \<Rightarrow> State \<Rightarrow> State"
  and namedVariable :: "Token \<Rightarrow> bool \<Rightarrow> State \<Rightarrow> State"
  and argumentList :: "State \<Rightarrow> 8 word \<times> State"
  and argumentLoop :: "8 word \<Rightarrow> State \<Rightarrow> 8 word \<times> State"
where
  "parsePrecedence prec s =
     (let s1 = advance s in
      case prefix (getRule (ttype (previous (parser s1)))) of
        None \<Rightarrow> error ''Expect expression.'' s1
      | Some prefixRule \<Rightarrow>
          (let canAssign = (prec \<le> PREC_ASSIGNMENT);
               s2 = callRule prefixRule canAssign s1;
               s3 = infixLoop prec canAssign s2;
               (m, s4) = (if canAssign then match TOKEN_EQUAL s3 else (False, s3))
           in if m then error ''Invalid assignment target.'' s4 else s4))"
| "infixLoop prec canAssign s =
     (if prec \<le> precedence (getRule (ttype (current (parser s)))) then
        (let s1 = advance s in
         case infix_rule (getRule (ttype (previous (parser s1)))) of
           None \<Rightarrow> s1\<lparr>faults := faults s1 @ [NullRule]\<rparr>
         | Some infixRule \<Rightarrow> infixLoop prec canAssign (callRule infixRule canAssign s1))
      else s)"
| "callRule fn canAssign s =
     (case fn of
        Fn_grouping \<Rightarrow> grouping canAssign s
      | Fn_call \<Rightarrow> call canAssign s
      | Fn_dot \<Rightarrow> dot canAssign s
      | Fn_unary \<Rightarrow> unary canAssign s
      | Fn_binary \<Rightarrow> binary canAssign s
      | Fn_variable \<Rightarrow> variable canAssign s
      | Fn_string \<Rightarrow> string canAssign s
      | Fn_number \<Rightarrow> number canAssign s
      | Fn_and \<Rightarrow> and' canAssign s
      | Fn_or \<Rightarrow> or' canAssign s
      | Fn_literal \<Rightarrow> literal canAssign s
      | Fn_super \<Rightarrow> super' canAssign s
      | Fn_this \<Rightarrow> this' canAssign s)"
| "expression s = parsePrecedence PREC_ASSIGNMENT s"
| "binary canAssign s =
     (let operatorType = ttype (previous (parser s));
          r = getRule operatorType;
          s1 = parsePrecedence (precedence r + 1) s
      in binaryOp operatorType s1)"
| "unary canAssign s =
     (let operatorType = ttype (previous (parser s));
          s1 = parsePrecedence PREC_UNARY s
      in unaryOp operatorType s1)"
| "call canAssign s =
     (let (argCount, s1) = argumentList s in emitBytes (Op OP_CALL) (Raw argCount) s1)"
| "dot canAssign s =
     (let s1 = consume TOKEN_IDENTIFIER ''Expect property name after '.'.'' s;
          (nm, s2) = identifierConstant (previous (parser s1)) s1;
          (m, s3) = (if canAssign then match TOKEN_EQUAL s2 else (False, s2))
      in if m then emitBytes (Op OP_SET_PROPERTY) (Raw nm) (expression s3)
         else (let (m2, s4) = match TOKEN_LEFT_PAREN s3 in
               if m2 then
                 (let (argCount, s5) = argumentList s4
                  in emitByte (Raw argCount) (emitBytes (Op OP_INVOKE) (Raw nm) s5))
               else emitBytes (Op OP_GET_PROPERTY) (Raw nm) s4))"
| "grouping canAssign s = consume TOKEN_RIGHT_PAREN ''Expect ')' after expression.'' (expression s)"
| "variable canAssign s = namedVariable (previous (parser s)) canAssign s"
| "this' canAssign s =
     (if currentClass s = [] then error ''Can't use 'this' outside of a class.'' s
      else variable False s)"
| "and' canAssign s =
     (let (endJump, s1) = emitJump (Op OP_JUMP_IF_FALSE) s;
          s2 = emitByte (Op OP_POP) s1;
          s3 = parsePrecedence PREC_AND s2
      in patchJump endJump s3)"
| "or' canAssign s =
     (let (avoidJump, s1) = emitJump (Op OP_JUMP_IF_FALSE) s;
          (endJump, s2) = emitJump (Op OP_JUMP) s1;
          s3 = emitByte (Op OP_POP) (patchJump avoidJump s2);
          s4 = parsePrecedence PREC_OR s3
      in patchJump endJump s4)"
| "super' canAssign s =
     (let s1 = (case currentClass s of
                  [] \<Rightarrow> error ''Can't use 'super' outside of a class.'' s
                | cc # _ \<Rightarrow>
                    if \<not> hasSuperclass cc
                    then error ''Can't use 'super' in a class with no superclass.'' s else s);
          s2 = consume TOKEN_DOT ''Expect '.' after 'super'.'' s1;
          s3 = consume TOKEN_IDENTIFIER ''Expect superclass method name.'' s2;
          (nm, s4) = identifierConstant (previous (parser s3)) s3;
          s5 = namedVariable (syntheticToken ''this'') False s4;
          (m, s6) = match TOKEN_LEFT_PAREN s5;
          s7 = (if m then
                  (let (argCount, s8) = argumentList s6;
                       s9 = namedVariable (syntheticToken ''super'') False s8
                   in emitByte (Raw argCount) (emitBytes (Op OP_SUPER_INVOKE) (Raw nm) s9))
                else emitBytes (Op OP_GET_SUPER) (Raw nm)
                       (namedVariable (syntheticToken ''super'') False s6));
          s10 = namedVariable (syntheticToken ''super'') False s7
      in emitBytes (Op OP_GET_SUPER) (Raw nm) s10)"
| "namedVariable nm canAssign s =
     (let (ops, s1) = resolveVariable nm s;
          (getOp, setOp, arg) = ops;
          (m, s2) = (if canAssign then match TOKEN_EQUAL s1 else (False, s1))
      in if m then emitBytes (Op setOp) (Raw (word_of_int arg)) (expression s2)
         else emitBytes (Op getOp) (Raw (word_of_int arg)) s2)"
| "argumentList s =
     (let (argCount, s1) = (if \<not> check TOKEN_RIGHT_PAREN s then argumentLoop 0 s else (0, s))
      in (argCount, consume TOKEN_RIGHT_PAREN ''Expect ')' after arguments.'' s1))"
| "argumentLoop argCount s =
     (let s1 = expression s;
          s2 = (if argCount = 255 then error ''Can't have more than 255 arguments.'' s1 else s1);
          argCount1 = argCount + 1;
          (m, s3) = match TOKEN_COMMA s2
      in if m then argumentLoop argCount1 s3 else (argCount1, s3))"
  by pat_completeness auto

abbreviation (input) expr_dom where
  "expr_dom \<equiv> parsePrecedence_infixLoop_callRule_expression_binary_unary_call_dot_grouping_variable_this'_and'_or'_super'_namedVariable_argumentList_argumentLoop_dom"

lemmas expr_pinduct = parsePrecedence_infixLoop_callRule_expression_binary_unary_call_dot_grouping_variable_this'_and'_or'_super'_namedVariable_argumentList_argumentLoop.pinduct

lemmas expr_psimps = parsePrecedence.psimps infixLoop.psimps callRule.psimps expression.psimps
  binary.psimps unary.psimps call.psimps dot.psimps grouping.psimps variable.psimps this'.psimps
  and'.psimps or'.psimps super'.psimps namedVariable.psimps argumentList.psimps argumentLoop.psimps

definition expr_prims :: "(State \<Rightarrow> bool) \<Rightarrow> bool" where
  "expr_prims I \<longleftrightarrow>
     (\<forall>s. I s \<longrightarrow> I (advance s)) \<and>
     (\<forall>s tok m. I s \<longrightarrow> I (errorAt tok m s)) \<and>
     (\<forall>s b. I s \<longrightarrow> I (emitByte b s)) \<and>
     (\<forall>s v. I s \<longrightarrow> I (snd (makeConstant v s))) \<and>
     (\<forall>s j. I s \<longrightarrow> I (patchJump j s)) \<and>
     (\<forall>s nm. I s \<longrightarrow> I (snd (resolveVariable nm s))) \<and>
     (\<forall>s. I s \<longrightarrow> I (s\<lparr>faults := faults s @ [NullRule]\<rparr>))"

lemma expr_primsD:
  assumes "expr_prims I" "I s"
  shows "I (advance s)" "I (errorAt tok m s)" "I (error m s)" "I (errorAtCurrent m s)"
    "I (emitByte b s)" "I (emitBytes b b' s)" "I (snd (makeConstant v s))"
    "I (patchJump j s)" "I (snd (resolveVariable nm s))"
    "I (s\<lparr>faults := faults s @ [NullRule]\<rparr>)"
    "I (consume t m s)" "I (snd (match t s))" "I (snd (emitJump b s))"
    "I (snd (identifierConstant nm s))" "I (emitConstant v s)"
    "I (number ca s)" "I (string ca s)" "I (literal ca s)" "I (binaryOp t s)" "I (unaryOp t s)"
  using assms
  by (simp_all add: expr_prims_def error_def errorAtCurrent_def emitBytes_def consume_def
      match_def emitJump_def identifierConstant_def emitConstant_def number_def string_def
      literal_def binaryOp_def unaryOp_def Let_def case_prod_beta)

lemma expr_preserves_dom:
  assumes P: "expr_prims I"
  shows "expr_dom (Inl (Inl (Inl (Inl (prec, s))))) \<Longrightarrow> I s \<Longrightarrow> I (parsePrecedence prec s)"
    and "expr_dom (Inl (Inl (Inl (Inr (prec, ca, s))))) \<Longrightarrow> I s \<Longrightarrow> I (infixLoop prec ca s)"
    and "expr_dom (Inl (Inl (Inr (Inl (fn, ca, s))))) \<Longrightarrow> I s \<Longrightarrow> I (callRule fn ca s)"
    and "expr_dom (Inl (Inl (Inr (Inr s)))) \<Longrightarrow> I s \<Longrightarrow> I (expression s)"
    and "expr_dom (Inl (Inr (Inl (Inl (ca, s))))) \<Longrightarrow> I s \<Longrightarrow> I (binary ca s)"
    and "expr_dom (Inl (Inr (Inl (Inr (ca, s))))) \<Longrightarrow> I s \<Longrightarrow> I (unary ca s)"
    and "expr_dom (Inl (Inr (Inr (Inl (ca, s))))) \<Longrightarrow> I s \<Longrightarrow> I (call ca s)"
    and "expr_dom (Inl (Inr (Inr (Inr (ca, s))))) \<Longrightarrow> I s \<Longrightarrow> I (dot ca s)"
    and "expr_dom (Inr (Inl (Inl (Inl (ca, s))))) \<Longrightarrow> I s \<Longrightarrow> I (grouping ca s)"
    and "expr_dom (Inr (Inl (Inl (Inr (ca, s))))) \<Longrightarrow> I s \<Longrightarrow> I (variable ca s)"
    and "expr_dom (Inr (Inl (Inr (Inl (ca, s))))) \<Longrightarrow> I s \<Longrightarrow> I (this' ca s)"
    and "expr_dom (Inr (Inl (Inr (Inr (ca, s))))) \<Longrightarrow> I s \<Longrightarrow> I (and' ca s)"
    and "expr_dom (Inr (Inr (Inl (Inl (ca, s))))) \<Longrightarrow> I s \<Longrightarrow> I (or' ca s)"
    and "expr_dom (Inr (Inr (Inl (Inr (ca, s))))) \<Longrightarrow> I s \<Longrightarrow> I (super' ca s)"
    and "expr_dom (Inr (Inr (Inr (Inl (nm, ca, s))))) \<Longrightarrow> I s \<Longrightarrow> I (namedVariable nm ca s)"
    and "expr_dom (Inr (Inr (Inr (Inr (Inl s))))) \<Longrightarrow> I s \<Longrightarrow> I (snd (argumentList s))"
    and "expr_dom (Inr (Inr (Inr (Inr (Inr (n, s)))))) \<Longrightarrow> I s \<Longrightarrow> I (snd (argumentLoop n s))"
proof (induct rule: expr_pinduct)
  case (1 prec s)
  then show ?case
    by (auto simp: expr_psimps Let_def case_prod_beta expr_primsD[OF P] split: option.splits)
next
  case (2 prec ca s)
  then show ?case
    by (auto simp: expr_psimps Let_def case_prod_beta expr_primsD[OF P] split: option.splits)
next
  case (3 fn ca s)
  then show ?case
    by (cases fn) (auto simp: expr_psimps Let_def case_prod_beta expr_primsD[OF P])
next
  case (4 s)
  then show ?case by (simp add: expr_psimps)
next
  case (5 ca s)
  then show ?case by (simp add: expr_psimps Let_def expr_primsD[OF P])
next
  case (6 ca s)
  then show ?case by (simp add: expr_psimps Let_def expr_primsD[OF P])
next
  case (7 ca s)
  then show ?case by (simp add: expr_psimps Let_def case_prod_beta expr_primsD[OF P])
next
  case (8 ca s)
  then show ?case
    by (auto simp: expr_psimps Let_def case_prod_beta expr_primsD[OF P])
next
  case (9 ca s)
  then show ?case by (simp add: expr_psimps Let_def case_prod_beta expr_primsD[OF P])
next
  case (10 ca s)
  then show ?case by (simp add: expr_psimps Let_def case_prod_beta expr_primsD[OF P])
next
  case (11 ca s)
  then show ?case by (simp add: expr_psimps Let_def case_prod_beta expr_primsD[OF P])
next
  case (12 ca s)
  then show ?case by (simp add: expr_psimps Let_def case_prod_beta expr_primsD[OF P])
next
  case (13 ca s)
  then show ?case by (simp add: expr_psimps Let_def case_prod_beta expr_primsD[OF P])
next
  case (14 ca s)
  note D = expr_primsD[OF P]
  define s1 where "s1 = (case currentClass s of
                  [] \<Rightarrow> error ''Can't use 'super' outside of a class.'' s
                | cc # _ \<Rightarrow>
                    if \<not> hasSuperclass cc
                    then error ''Can't use 'super' in a class with no superclass.'' s else s)"
  define s2 where "s2 = consume TOKEN_DOT ''Expect '.' after 'super'.'' s1"
  define s3 where "s3 = consume TOKEN_IDENTIFIER ''Expect superclass method name.'' s2"
  define r4 where "r4 = identifierConstant (previous (parser s3)) s3"
  define s5 where "s5 = namedVariable (syntheticToken ''this'') False (snd r4)"
  define r6 where "r6 = match TOKEN_LEFT_PAREN s5"
  define r8 where "r8 = argumentList (snd r6)"
  define s7 where "s7 = (if fst r6 then
                  (let (argCount, s8) = argumentList (snd r6);
                       s9 = namedVariable (syntheticToken ''super'') False s8
                   in emitByte (Raw argCount) (emitBytes (Op OP_SUPER_INVOKE) (Raw (fst r4)) s9))
                else emitBytes (Op OP_GET_SUPER) (Raw (fst r4))
                       (namedVariable (syntheticToken ''super'') False (snd r6)))"
  define s10 where "s10 = namedVariable (syntheticToken ''super'') False s7"
  have eq: "super' ca s = emitBytes (Op OP_GET_SUPER) (Raw (fst r4)) s10"
    unfolding s10_def s7_def r6_def s5_def r4_def s3_def s2_def s1_def
    by (simp add: super'.psimps[OF "14.hyps"(1)] Let_def case_prod_beta)
  have I1: "I s1" using "14.prems" by (simp add: s1_def D split: list.split)
  have I4: "I (snd r4)" using I1 by (simp add: r4_def s3_def s2_def D)
  have I5: "I s5" unfolding s5_def
    by (rule "14.hyps"(2)[OF s1_def s2_def s3_def r4_def I4])
  have I6: "I (snd r6)" using I5 by (simp add: r6_def D)
  have I7: "I s7"
  proof (cases "fst r6")
    case True
    have "I (snd r8)" unfolding r8_def
      by (rule "14.hyps"(3)[OF s1_def s2_def s3_def r4_def s5_def r6_def True I6])
    then have "I (namedVariable (syntheticToken ''super'') False (snd r8))"
      by (rule "14.hyps"(4)[OF s1_def s2_def s3_def r4_def s5_def r6_def True r8_def])
    then show ?thesis using True by (simp add: s7_def r8_def D Let_def case_prod_beta)
  next
    case False
    have "I (namedVariable (syntheticToken ''super'') False (snd r6))"
      by (rule "14.hyps"(5)[OF s1_def s2_def s3_def r4_def s5_def r6_def False I6])
    then show ?thesis using False by (simp add: s7_def D)
  qed
  have "I s10" unfolding s10_def
    by (rule "14.hyps"(6)[OF s1_def s2_def s3_def r4_def s5_def r6_def s7_def I7])
  then show ?case by (simp add: eq D)
next
  case (15 nm ca s)
  then show ?case
    by (simp add: expr_psimps Let_def case_prod_beta expr_primsD[OF P])
next
  case (16 s)
  then show ?case
    by (simp add: expr_psimps Let_def case_prod_beta expr_primsD[OF P])
next
  case (17 n s)
  then show ?case
    by (simp add: expr_psimps Let_def case_prod_beta expr_primsD[OF P])
qed


section \<open>Termination of the expression functions\<close>

definition msr :: "State \<Rightarrow> nat" where
  "msr s = length (scanner s) + (if ttype (current (parser s)) = TOKEN_EOF then 0 else 1)"

lemma errorAt_parser [simp]:
  "scanner (errorAt tok m s) = scanner s"
  "current (parser (errorAt tok m s)) = current (parser s)"
  "previous (parser (errorAt tok m s)) = previous (parser s)"
  "compiler (errorAt tok m s) = compiler s"
  "enclosing (errorAt tok m s) = enclosing s"
  "currentClass (errorAt tok m s) = currentClass s"
  "faults (errorAt tok m s) = faults s"
  by (simp_all add: errorAt_def)

lemma error_parser [simp]:
  "scanner (error m s) = scanner s"
  "current (parser (error m s)) = current (parser s)"
  "previous (parser (error m s)) = previous (parser s)"
  "compiler (error m s) = compiler s"
  "enclosing (error m s) = enclosing s"
  "currentClass (error m s) = currentClass s"
  "faults (error m s) = faults s"
  "scanner (errorAtCurrent m s) = scanner s"
  "current (parser (errorAtCurrent m s)) = current (parser s)"
  "previous (parser (errorAtCurrent m s)) = previous (parser s)"
  "compiler (errorAtCurrent m s) = compiler s"
  "enclosing (errorAtCurrent m s) = enclosing s"
  "currentClass (errorAtCurrent m s) = currentClass s"
  "faults (errorAtCurrent m s) = faults s"
  by (simp_all add: error_def errorAtCurrent_def)

lemma advanceLoop_frame:
  "previous (parser (advanceLoop s)) = previous (parser s) \<and>
   compiler (advanceLoop s) = compiler s \<and> enclosing (advanceLoop s) = enclosing s \<and>
   currentClass (advanceLoop s) = currentClass s \<and> faults (advanceLoop s) = faults s"
proof (induct s rule: advanceLoop.induct)
  case (1 s)
  show ?case
  proof (cases "ttype (fst (scanToken s)) = TOKEN_ERROR")
    case True
    then show ?thesis
      using 1[OF refl refl]
      by (subst (1 2 3 4 5) advanceLoop.simps)
         (simp add: case_prod_beta Let_def scanToken_def split: list.splits)
  next
    case False
    then show ?thesis
      by (subst (1 2 3 4 5) advanceLoop.simps)
         (simp add: case_prod_beta Let_def scanToken_def split: list.splits)
  qed
qed

lemma advance_frame [simp]:
  "previous (parser (advance s)) = current (parser s)"
  "compiler (advance s) = compiler s"
  "enclosing (advance s) = enclosing s"
  "currentClass (advance s) = currentClass s"
  "faults (advance s) = faults s"
  by (simp_all add: advance_def advanceLoop_frame)

lemma msr_advanceLoop: "msr (advanceLoop s) \<le> length (scanner s)"
proof (induct s rule: advanceLoop.induct)
  case (1 s)
  show ?case
  proof (cases "scanner s")
    case Nil
    then show ?thesis
      by (subst advanceLoop.simps) (simp add: scanToken_def msr_def)
  next
    case (Cons t ts)
    show ?thesis
    proof (cases "ttype t = TOKEN_ERROR")
      case True
      then show ?thesis
        using 1[OF refl refl] Cons
        by (subst advanceLoop.simps) (simp add: scanToken_def)
    next
      case False
      then show ?thesis
        using Cons by (subst advanceLoop.simps) (simp add: scanToken_def msr_def)
    qed
  qed
qed

lemma msr_advance: "msr (advance s) \<le> msr s"
  using msr_advanceLoop[of "s\<lparr>parser := (parser s)\<lparr>previous := current (parser s)\<rparr>\<rparr>"]
  by (simp add: advance_def msr_def)

lemma msr_advance_strict:
  "ttype (current (parser s)) \<noteq> TOKEN_EOF \<Longrightarrow> msr (advance s) < msr s"
  using msr_advanceLoop[of "s\<lparr>parser := (parser s)\<lparr>previous := current (parser s)\<rparr>\<rparr>"]
  by (simp add: advance_def msr_def)


lemma set_currentChunk_frame [simp]:
  "scanner (set_currentChunk ch s) = scanner s"
  "parser (set_currentChunk ch s) = parser s"
  "enclosing (set_currentChunk ch s) = enclosing s"
  "currentClass (set_currentChunk ch s) = currentClass s"
  "faults (set_currentChunk ch s) = faults s"
  "stderr (set_currentChunk ch s) = stderr s"
  by (simp_all add: set_currentChunk_def)

lemma emitByte_frame [simp]:
  "scanner (emitByte b s) = scanner s"
  "parser (emitByte b s) = parser s"
  "enclosing (emitByte b s) = enclosing s"
  "currentClass (emitByte b s) = currentClass s"
  "faults (emitByte b s) = faults s"
  "stderr (emitByte b s) = stderr s"
  by (simp_all add: emitByte_def)

lemma makeConstant_tokens [simp]:
  "scanner (snd (makeConstant v s)) = scanner s"
  "current (parser (snd (makeConstant v s))) = current (parser s)"
  "previous (parser (snd (makeConstant v s))) = previous (parser s)"
  by (simp_all add: makeConstant_def Let_def case_prod_beta)

lemma patchJump_tokens [simp]:
  "scanner (patchJump j s) = scanner s"
  "current (parser (patchJump j s)) = current (parser s)"
  "previous (parser (patchJump j s)) = previous (parser s)"
  by (simp_all add: patchJump_def Let_def)

lemma resolveLocalLoop_tokens:
  "scanner (snd (resolveLocalLoop i c nm s)) = scanner s \<and>
   current (parser (snd (resolveLocalLoop i c nm s))) = current (parser s) \<and>
   previous (parser (snd (resolveLocalLoop i c nm s))) = previous (parser s)"
  by (induct i) (simp_all add: Let_def)

lemma addUpvalue_tokens:
  "scanner (snd (snd (addUpvalue c idx isLoc s))) = scanner s \<and>
   current (parser (snd (snd (addUpvalue c idx isLoc s)))) = current (parser s) \<and>
   previous (parser (snd (snd (addUpvalue c idx isLoc s)))) = previous (parser s)"
  by (simp add: addUpvalue_def Let_def split: option.splits)

lemma resolveUpvalue_tokens:
  "scanner (snd (snd (snd (resolveUpvalue c es nm s)))) = scanner s \<and>
   current (parser (snd (snd (snd (resolveUpvalue c es nm s))))) = current (parser s) \<and>
   previous (parser (snd (snd (snd (resolveUpvalue c es nm s))))) = previous (parser s)"
proof (induct c es nm s rule: resolveUpvalue.induct)
  case (1 c nm s)
  show ?case by simp
next
  case (2 c e es nm s)
  show ?case
    using 2[OF refl]
    by (simp add: Let_def case_prod_beta resolveLocal_def resolveLocalLoop_tokens
        addUpvalue_tokens)
qed

lemma resolveVariable_tokens [simp]:
  "scanner (snd (resolveVariable nm s)) = scanner s"
  "current (parser (snd (resolveVariable nm s))) = current (parser s)"
  "previous (parser (snd (resolveVariable nm s))) = previous (parser s)"
  by (simp_all add: resolveVariable_def Let_def case_prod_beta resolveLocal_def
      resolveLocalLoop_tokens resolveUpvalue_tokens identifierConstant_def)

lemma msr_cong: "scanner s' = scanner s \<Longrightarrow> current (parser s') = current (parser s) \<Longrightarrow> msr s' = msr s"
  by (simp add: msr_def)

lemma msr_prims [simp]:
  "msr (errorAt tok m s) = msr s"
  "msr (error m s) = msr s"
  "msr (errorAtCurrent m s) = msr s"
  "msr (emitByte b s) = msr s"
  "msr (emitBytes b b' s) = msr s"
  "msr (snd (makeConstant v s)) = msr s"
  "msr (snd (identifierConstant nm s)) = msr s"
  "msr (emitConstant v s) = msr s"
  "msr (snd (emitJump b s)) = msr s"
  "msr (patchJump j s) = msr s"
  "msr (snd (resolveVariable nm s)) = msr s"
  "msr (s\<lparr>faults := fs\<rparr>) = msr s"
  by (rule msr_cong; simp add: emitBytes_def identifierConstant_def emitConstant_def
      emitJump_def case_prod_beta Let_def error_def errorAtCurrent_def)+

lemma msr_below_prims:
  "expr_prims (\<lambda>s. msr s \<le> n)" "expr_prims (\<lambda>s. msr s < n)"
  using msr_advance by (auto simp: expr_prims_def intro: order_trans le_less_trans)

lemmas msr_le_dom = expr_preserves_dom[where I = "\<lambda>s. msr s \<le> n", OF msr_below_prims(1)] for n
lemmas msr_less_dom = expr_preserves_dom[where I = "\<lambda>s. msr s < n", OF msr_below_prims(2)] for n

lemma msr_step [simp]:
  "msr s \<le> n \<Longrightarrow> msr (advance s) \<le> n"
  "msr s < n \<Longrightarrow> msr (advance s) < n"
  "msr s \<le> n \<Longrightarrow> msr (consume t m s) \<le> n"
  "msr s < n \<Longrightarrow> msr (consume t m s) < n"
  "msr s \<le> n \<Longrightarrow> msr (snd (match t s)) \<le> n"
  "msr s < n \<Longrightarrow> msr (snd (match t s)) < n"
  using msr_advance[of s] by (auto simp: consume_def match_def)

lemma prefix_not_EOF: "prefix (getRule t) = Some f \<Longrightarrow> t \<noteq> TOKEN_EOF"
  by (auto simp: getRule_def rule_def)

lemma infix_not_EOF: "infix_rule (getRule t) = Some f \<Longrightarrow> t \<noteq> TOKEN_EOF"
  by (auto simp: getRule_def rule_def)

lemma msr_strict [simp]:
  "prefix (getRule (ttype (current (parser s)))) = Some f \<Longrightarrow> msr s \<le> n \<Longrightarrow> msr (advance s) < n"
  "infix_rule (getRule (ttype (current (parser s)))) = Some f \<Longrightarrow> msr s \<le> n \<Longrightarrow> msr (advance s) < n"
  "fst (match TOKEN_EQUAL s) \<Longrightarrow> msr s \<le> n \<Longrightarrow> msr (snd (match TOKEN_EQUAL s)) < n"
  "fst (match TOKEN_LEFT_PAREN s) \<Longrightarrow> msr s \<le> n \<Longrightarrow> msr (snd (match TOKEN_LEFT_PAREN s)) < n"
  "fst (match TOKEN_COMMA s) \<Longrightarrow> msr s \<le> n \<Longrightarrow> msr (snd (match TOKEN_COMMA s)) < n"
  using msr_advance_strict[of s] prefix_not_EOF[of "ttype (current (parser s))" f]
    infix_not_EOF[of "ttype (current (parser s))" f]
  by (auto simp: match_def check_def split: if_splits)

type_synonym expr_args =
  "((((nat \<times> State) + (nat \<times> bool \<times> State)) + ((ParseFn \<times> bool \<times> State) + State)) +
    (((bool \<times> State) + (bool \<times> State)) + ((bool \<times> State) + (bool \<times> State)))) +
   ((((bool \<times> State) + (bool \<times> State)) + ((bool \<times> State) + (bool \<times> State))) +
    (((bool \<times> State) + (bool \<times> State)) + ((Token \<times> bool \<times> State) + (State + (8 word \<times> State)))))"

text \<open>The state a call starts from, and the rank of the called function among the calls
  that start from the same tokens.\<close>

fun expr_state :: "expr_args \<Rightarrow> State" where
  "expr_state (Inl (Inl (Inl (Inl (prec, s))))) = s"
| "expr_state (Inl (Inl (Inl (Inr (prec, ca, s))))) = s"
| "expr_state (Inl (Inl (Inr (Inl (fn, ca, s))))) = s"
| "expr_state (Inl (Inl (Inr (Inr s)))) = s"
| "expr_state (Inl (Inr (Inl (Inl (ca, s))))) = s"
| "expr_state (Inl (Inr (Inl (Inr (ca, s))))) = s"
| "expr_state (Inl (Inr (Inr (Inl (ca, s))))) = s"
| "expr_state (Inl (Inr (Inr (Inr (ca, s))))) = s"
| "expr_state (Inr (Inl (Inl (Inl (ca, s))))) = s"
| "expr_state (Inr (Inl (Inl (Inr (ca, s))))) = s"
| "expr_state (Inr (Inl (Inr (Inl (ca, s))))) = s"
| "expr_state (Inr (Inl (Inr (Inr (ca, s))))) = s"
| "expr_state (Inr (Inr (Inl (Inl (ca, s))))) = s"
| "expr_state (Inr (Inr (Inl (Inr (ca, s))))) = s"
| "expr_state (Inr (Inr (Inr (Inl (nm, ca, s))))) = s"
| "expr_state (Inr (Inr (Inr (Inr (Inl s))))) = s"
| "expr_state (Inr (Inr (Inr (Inr (Inr (n, s)))))) = s"

fun expr_rank :: "expr_args \<Rightarrow> nat" where
  "expr_rank (Inl (Inl (Inl (Inl (prec, s))))) = 0"
| "expr_rank (Inl (Inl (Inl (Inr (prec, ca, s))))) = 0"
| "expr_rank (Inl (Inl (Inr (Inl (fn, ca, s))))) = 5"
| "expr_rank (Inl (Inl (Inr (Inr s)))) = 1"
| "expr_rank (Inl (Inr (Inl (Inl (ca, s))))) = 1"
| "expr_rank (Inl (Inr (Inl (Inr (ca, s))))) = 1"
| "expr_rank (Inl (Inr (Inr (Inl (ca, s))))) = 4"
| "expr_rank (Inl (Inr (Inr (Inr (ca, s))))) = 0"
| "expr_rank (Inr (Inl (Inl (Inl (ca, s))))) = 2"
| "expr_rank (Inr (Inl (Inl (Inr (ca, s))))) = 1"
| "expr_rank (Inr (Inl (Inr (Inl (ca, s))))) = 2"
| "expr_rank (Inr (Inl (Inr (Inr (ca, s))))) = 1"
| "expr_rank (Inr (Inr (Inl (Inl (ca, s))))) = 1"
| "expr_rank (Inr (Inr (Inl (Inr (ca, s))))) = 1"
| "expr_rank (Inr (Inr (Inr (Inl (nm, ca, s))))) = 0"
| "expr_rank (Inr (Inr (Inr (Inr (Inl s))))) = 3"
| "expr_rank (Inr (Inr (Inr (Inr (Inr (n, s)))))) = 2"

definition expr_rel :: "(expr_args \<times> expr_args) set" where
  "expr_rel = {(a, b). msr (expr_state a) < msr (expr_state b) \<or>
                 msr (expr_state a) \<le> msr (expr_state b) \<and> expr_rank a < expr_rank b}"

lemma wf_expr_rel: "wf expr_rel"
proof (rule wf_subset)
  show "wf (inv_image (less_than <*lex*> less_than) (\<lambda>a. (msr (expr_state a), expr_rank a)))"
    by (intro wf_inv_image wf_lex_prod wf_less_than)
  show "expr_rel \<subseteq> inv_image (less_than <*lex*> less_than) (\<lambda>a. (msr (expr_state a), expr_rank a))"
    by (auto simp: expr_rel_def)
qed

lemma expr_total: "expr_dom x"
proof (rule "parsePrecedence_infixLoop_callRule_expression_binary_unary_call_dot_grouping_variable_this'_and'_or'_super'_namedVariable_argumentList_argumentLoop.termination"[OF wf_expr_rel, THEN spec], goal_cases)
  case (26 ca s x xa xb xc)
  have "msr x \<le> msr s" by (simp add: 26(1) split: list.split)
  then have "msr (snd xc) \<le> msr s" by (simp add: 26(2,3,4))
  then show ?case by (simp add: expr_rel_def)
next
  case (27 ca s x xa xb xc xd xe)
  have "msr x \<le> msr s" by (simp add: 27(1) split: list.split)
  then have "msr (snd xc) \<le> msr s" by (simp add: 27(2,3,4))
  then have "msr xd \<le> msr s" unfolding 27(5) by (rule msr_le_dom(15)[OF 27(8)])
  then have "msr (snd xe) < msr s" using 27(7) by (simp add: 27(6))
  then show ?case by (simp add: expr_rel_def)
next
  case (28 ca s x xa xb xc xd xe xf)
  have "msr x \<le> msr s" by (simp add: 28(1) split: list.split)
  then have "msr (snd xc) \<le> msr s" by (simp add: 28(2,3,4))
  then have "msr xd \<le> msr s" unfolding 28(5) by (rule msr_le_dom(15)[OF 28(10)])
  then have "msr (snd xe) \<le> msr s" by (simp add: 28(6))
  then have "msr (snd xf) \<le> msr s" unfolding 28(8) by (rule msr_le_dom(16)[OF 28(9)])
  then show ?case by (simp add: expr_rel_def)
next
  case (29 ca s x xa xb xc xd xe)
  have "msr x \<le> msr s" by (simp add: 29(1) split: list.split)
  then have "msr (snd xc) \<le> msr s" by (simp add: 29(2,3,4))
  then have "msr xd \<le> msr s" unfolding 29(5) by (rule msr_le_dom(15)[OF 29(8)])
  then have "msr (snd xe) \<le> msr s" by (simp add: 29(6))
  then show ?case by (simp add: expr_rel_def)
next
  case (30 ca s x xa xb xc xd xe xf)
  have "msr x \<le> msr s" by (simp add: 30(1) split: list.split)
  then have "msr (snd xc) \<le> msr s" by (simp add: 30(2,3,4))
  then have "msr xd \<le> msr s" unfolding 30(5) by (rule msr_le_dom(15)[OF 30(11)])
  then have e: "msr (snd xe) \<le> msr s" by (simp add: 30(6))
  have "msr xf \<le> msr s"
  proof (cases "fst xe")
    case True
    have "msr (snd (argumentList (snd xe))) \<le> msr s"
      by (rule msr_le_dom(16)[OF 30(10)[OF True] e])
    then have "msr (namedVariable (syntheticToken ''super'') False (snd (argumentList (snd xe))))
        \<le> msr s"
      by (rule msr_le_dom(15)[OF 30(9)[OF True refl]])
    then show ?thesis using True by (simp add: 30(7) case_prod_beta Let_def)
  next
    case False
    have "msr (namedVariable (syntheticToken ''super'') False (snd xe)) \<le> msr s"
      by (rule msr_le_dom(15)[OF 30(8)[OF False] e])
    then show ?thesis using False by (simp add: 30(7))
  qed
  then show ?case by (simp add: expr_rel_def)
qed (simp_all add: expr_rel_def msr_le_dom msr_less_dom if_distrib[of fst] if_distrib[of snd]
       split: list.split if_split_asm)


termination parsePrecedence
  using expr_total by blast

lemmas expr_simps = parsePrecedence.simps infixLoop.simps callRule.simps expression.simps
  binary.simps unary.simps call.simps dot.simps grouping.simps variable.simps this'.simps
  and'.simps or'.simps super'.simps namedVariable.simps argumentList.simps argumentLoop.simps

declare expr_simps [simp del]

lemmas expr_preserves = expr_preserves_dom[OF _ expr_total]

lemmas msr_le = msr_le_dom[OF expr_total]
lemmas msr_less = msr_less_dom[OF expr_total]

section \<open>Statements and declarations\<close>

definition varDeclaration :: "State \<Rightarrow> State" where
  "varDeclaration s =
     (let (global, s1) = parseVariable ''Expect variable name.'' s;
          (m, s2) = match TOKEN_EQUAL s1;
          s3 = (if m then expression s2 else emitByte (Op OP_NIL) s2);
          s4 = consume TOKEN_SEMICOLON ''Expect ';' after variable declaration.'' s3
      in defineVariable global s4)"

definition expressionStatement :: "State \<Rightarrow> State" where
  "expressionStatement s =
     emitByte (Op OP_POP) (consume TOKEN_SEMICOLON ''Expect ';' after expression.'' (expression s))"

definition printStatement :: "State \<Rightarrow> State" where
  "printStatement s =
     emitByte (Op OP_PRINT) (consume TOKEN_SEMICOLON ''Expect ';' after value.'' (expression s))"

definition returnStatement :: "State \<Rightarrow> State" where
  "returnStatement s =
     (let s1 = (if ftype (compiler s) = TYPE_SCRIPT
                then error ''Can't return from top-level code.'' s else s);
          (m, s2) = match TOKEN_SEMICOLON s1
      in if m then emitReturn s2
         else
           (let s3 = (if ftype (compiler s2) = TYPE_INITIALIZER
                      then error ''Can't return a value from an initializer.'' s2 else s2);
                s4 = expression s3;
                s5 = consume TOKEN_SEMICOLON ''Expect ';' after return value.'' s4
            in emitByte (Op OP_RETURN) s5))"

text \<open>The loop of \<open>synchronize\<close>.\<close>

function synchronizeLoop :: "State \<Rightarrow> State" where
  "synchronizeLoop s =
     (if ttype (current (parser s)) \<noteq> TOKEN_EOF then
        (if ttype (previous (parser s)) = TOKEN_SEMICOLON then s
         else if ttype (current (parser s)) \<in>
                   {TOKEN_CLASS, TOKEN_FUN, TOKEN_VAR, TOKEN_FOR, TOKEN_IF, TOKEN_WHILE,
                    TOKEN_PRINT, TOKEN_RETURN} then s
         else synchronizeLoop (advance s))
      else s)"
  by pat_completeness auto
termination
  by (relation "measure msr") (auto simp: msr_advance_strict)

declare synchronizeLoop.simps [simp del]

definition synchronize :: "State \<Rightarrow> State" where
  "synchronize s = synchronizeLoop (s\<lparr>parser := (parser s)\<lparr>panicMode := False\<rparr>\<rparr>)"

section \<open>What the scope and frame operations leave alone\<close>

lemma beginScope_frame [simp]:
  "scanner (beginScope s) = scanner s" "parser (beginScope s) = parser s"
  "enclosing (beginScope s) = enclosing s" "currentClass (beginScope s) = currentClass s"
  "faults (beginScope s) = faults s" "stderr (beginScope s) = stderr s"
  by (simp_all add: beginScope_def)

lemma endScopeLoop_frame:
  "scanner (endScopeLoop s) = scanner s \<and> parser (endScopeLoop s) = parser s \<and>
   enclosing (endScopeLoop s) = enclosing s \<and> currentClass (endScopeLoop s) = currentClass s \<and>
   stderr (endScopeLoop s) = stderr s"
proof (induct s rule: endScopeLoop.induct)
  case (1 s)
  show ?case
  proof (cases "localAt (compiler s) (localCount (compiler s) - 1)")
    case None
    then show ?thesis
      by (subst (1 2 3 4 5) endScopeLoop.simps) (simp add: Let_def localCount_def)
  next
    case (Some l)
    show ?thesis
    proof (cases "depth l > scopeDepth (compiler s)")
      case True
      have le: "localCount (compiler s) \<ge> 0" by (simp add: localCount_def)
      show ?thesis
        using 1[OF refl le Some True refl] Some True
        by (subst (1 2 3 4 5) endScopeLoop.simps) (simp add: Let_def localCount_def)
    next
      case False
      then show ?thesis using Some
        by (subst (1 2 3 4 5) endScopeLoop.simps) (simp add: Let_def localCount_def)
    qed
  qed
qed

lemma endScope_frame [simp]:
  "scanner (endScope s) = scanner s" "parser (endScope s) = parser s"
  "enclosing (endScope s) = enclosing s" "currentClass (endScope s) = currentClass s"
  "stderr (endScope s) = stderr s"
  by (simp_all add: endScope_def endScopeLoop_frame)

lemma addLocal_frame [simp]:
  "scanner (addLocal nm s) = scanner s"
  "current (parser (addLocal nm s)) = current (parser s)"
  "previous (parser (addLocal nm s)) = previous (parser s)"
  "enclosing (addLocal nm s) = enclosing s" "currentClass (addLocal nm s) = currentClass s"
  "faults (addLocal nm s) = faults s"
  by (simp_all add: addLocal_def)

lemma declareLoop_frame:
  "scanner (declareLoop i nm s) = scanner s \<and>
   current (parser (declareLoop i nm s)) = current (parser s) \<and>
   previous (parser (declareLoop i nm s)) = previous (parser s) \<and>
   compiler (declareLoop i nm s) = compiler s \<and>
   enclosing (declareLoop i nm s) = enclosing s \<and>
   currentClass (declareLoop i nm s) = currentClass s \<and>
   faults (declareLoop i nm s) = faults s"
  by (induct i arbitrary: s) (simp_all add: Let_def)

lemma declareVariable_frame [simp]:
  "scanner (declareVariable s) = scanner s"
  "current (parser (declareVariable s)) = current (parser s)"
  "previous (parser (declareVariable s)) = previous (parser s)"
  "enclosing (declareVariable s) = enclosing s"
  "currentClass (declareVariable s) = currentClass s"
  "faults (declareVariable s) = faults s"
  by (simp_all add: declareVariable_def Let_def declareLoop_frame)

lemma markInitialized_frame [simp]:
  "scanner (markInitialized s) = scanner s" "parser (markInitialized s) = parser s"
  "enclosing (markInitialized s) = enclosing s"
  "currentClass (markInitialized s) = currentClass s"
  "stderr (markInitialized s) = stderr s"
  by (simp_all add: markInitialized_def Let_def split: option.split)

lemma defineVariable_frame [simp]:
  "scanner (defineVariable g s) = scanner s" "parser (defineVariable g s) = parser s"
  "enclosing (defineVariable g s) = enclosing s"
  "currentClass (defineVariable g s) = currentClass s"
  "stderr (defineVariable g s) = stderr s"
  by (simp_all add: defineVariable_def emitBytes_def)

lemma initCompiler_frame [simp]:
  "scanner (initCompiler t s) = scanner s" "parser (initCompiler t s) = parser s"
  "currentClass (initCompiler t s) = currentClass s"
  "faults (initCompiler t s) = faults s" "stderr (initCompiler t s) = stderr s"
  "compiler (initCompiler t s) = newCompiler t (parser s)"
  "enclosing (initCompiler t s) = compiler s # enclosing s"
  by (simp_all add: initCompiler_def)

lemma emitReturn_frame [simp]:
  "scanner (emitReturn s) = scanner s" "parser (emitReturn s) = parser s"
  "enclosing (emitReturn s) = enclosing s" "currentClass (emitReturn s) = currentClass s"
  "faults (emitReturn s) = faults s" "stderr (emitReturn s) = stderr s"
  by (simp_all add: emitReturn_def emitBytes_def)

lemma endCompiler_frame [simp]:
  "scanner (snd (endCompiler s)) = scanner s" "parser (snd (endCompiler s)) = parser s"
  "currentClass (snd (endCompiler s)) = currentClass s"
  "faults (snd (endCompiler s)) = faults s" "stderr (snd (endCompiler s)) = stderr s"
  by (simp_all add: endCompiler_def Let_def split: list.split)

lemma msr_scope_prims [simp]:
  "msr (beginScope s) = msr s"
  "msr (endScope s) = msr s"
  "msr (addLocal nm s) = msr s"
  "msr (declareVariable s) = msr s"
  "msr (markInitialized s) = msr s"
  "msr (defineVariable g s) = msr s"
  "msr (initCompiler t s) = msr s"
  "msr (emitReturn s) = msr s"
  "msr (snd (endCompiler s)) = msr s"
  "msr (s\<lparr>compiler := c\<rparr>) = msr s"
  "msr (s\<lparr>currentClass := ccs\<rparr>) = msr s"
  "msr (s\<lparr>parser := (parser s)\<lparr>panicMode := b\<rparr>\<rparr>) = msr s"
  by (rule msr_cong; simp)+

lemma msr_parseVariable [simp]:
  "msr s \<le> n \<Longrightarrow> msr (snd (parseVariable m s)) \<le> n"
  "msr s < n \<Longrightarrow> msr (snd (parseVariable m s)) < n"
  by (simp_all add: parseVariable_def Let_def)

text \<open>The \<open>do \<dots> while\<close> loop over the parameters in \<open>function\<close>.\<close>

function parameterLoop :: "State \<Rightarrow> State" where
  "parameterLoop s =
     (let f = func (compiler s);
          s1 = s\<lparr>compiler := (compiler s)\<lparr>func := set_arity (arity f + 1) f\<rparr>\<rparr>;
          s2 = (if arity (func (compiler s1)) > 255
                then errorAtCurrent ''Can't have more than 255 parameters.'' s1 else s1);
          (paramConstant, s3) = parseVariable ''Expect parameter name.'' s2;
          s4 = defineVariable paramConstant s3;
          (m, s5) = match TOKEN_COMMA s4
      in if m then parameterLoop s5 else s5)"
  by pat_completeness auto
termination
  by (relation "measure msr") (simp_all add: case_prod_beta)

declare parameterLoop.simps [simp del]

text \<open>The loop of \<open>function\<close> that emits, for each upvalue of the finished frame, whether it
  is a local and its index.\<close>

fun emitUpvalues :: "Upvalue list \<Rightarrow> State \<Rightarrow> State" where
  "emitUpvalues [] s = s"
| "emitUpvalues (u # us) s =
     emitUpvalues us (emitByte (Raw (index u)) (emitByte (Raw (if isLocal u then 1 else 0)) s))"

text \<open>The body of \<open>if (match(TOKEN_LESS)) { \<dots> }\<close> in \<open>classDeclaration\<close>: the superclass
  clause. Its last statement sets \<open>hasSuperclass\<close> of the class scope of this declaration,
  which \<open>currentClass\<close> points to.\<close>

definition superclassClause :: "Token \<Rightarrow> State \<Rightarrow> State" where
  "superclassClause className' s =
     (let s1 = consume TOKEN_IDENTIFIER ''Expect superclass name.'' s;
          s2 = variable False s1;
          s3 = (if identifiersEqual className' (previous (parser s2))
                then error ''A class can't inherit from itself.'' s2 else s2);
          s4 = beginScope s3;
          s5 = addLocal (syntheticToken ''super'') s4;
          s6 = defineVariable 0 s5;
          s7 = namedVariable className' False s6;
          s8 = emitByte (Op OP_INHERIT) s7
      in case currentClass s8 of
           [] \<Rightarrow> s8
         | cc # ccs \<Rightarrow> s8\<lparr>currentClass := cc\<lparr>hasSuperclass := True\<rparr> # ccs\<rparr>)"

text \<open>The initializer clause of \<open>forStatement\<close>.\<close>

definition forInitializer :: "State \<Rightarrow> State" where
  "forInitializer s =
     (let (m1, s1) = match TOKEN_SEMICOLON s in
      if m1 then s1
      else (let (m2, s2) = match TOKEN_VAR s1 in
            if m2 then varDeclaration s2 else expressionStatement s2))"

text \<open>The condition and increment clauses of \<open>forStatement\<close>: they leave \<open>loopStart\<close> and
  \<open>exitJump\<close> for the rest of the function.\<close>

definition forClauses :: "State \<Rightarrow> int \<times> int \<times> State" where
  "forClauses s =
     (let loopStart = count (currentChunk s);
          (m1, s1) = match TOKEN_SEMICOLON s;
          (exitJump, s2) =
            (if \<not> m1 then
               (let sa = expression s1;
                    sb = consume TOKEN_SEMICOLON ''Expect ';' after loop condition.'' sa;
                    (j, sc) = emitJump (Op OP_JUMP_IF_FALSE) sb
                in (j, emitByte (Op OP_POP) sc))
             else (-1, s1));
          (m2, s3) = match TOKEN_RIGHT_PAREN s2
      in if \<not> m2 then
           (let (bodyJump, sa) = emitJump (Op OP_JUMP) s3;
                incrementStart = count (currentChunk sa);
                sb = expression sa;
                sc = emitByte (Op OP_POP) sb;
                sd = consume TOKEN_RIGHT_PAREN ''Expect ')' after for loop initializer.'' sc;
                se = emitLoop loopStart sd
            in (incrementStart, exitJump, patchJump bodyJump se))
         else (loopStart, exitJump, s3))"

text \<open>\<open>function\<close> before the body: the new frame, its scope and the parameter list, up to
  the brace that opens the body.\<close>

definition functionHeader :: "FunctionType \<Rightarrow> State \<Rightarrow> State" where
  "functionHeader type s =
     (let s1 = beginScope (initCompiler type s);
          s2 = consume TOKEN_LEFT_PAREN ''Expect '(' after function name.'' s1;
          s3 = (if \<not> check TOKEN_RIGHT_PAREN s2 then parameterLoop s2 else s2);
          s4 = consume TOKEN_RIGHT_PAREN ''Expect ')' after parameters.'' s3
      in consume TOKEN_LEFT_BRACE ''Expect '{' before function body.'' s4)"

text \<open>\<open>function\<close> after the body: the frame is finished, and the enclosing frame gets the
  closure instruction with the upvalues of the finished frame (\<open>compiler.upvalues\<close>).\<close>

definition functionFooter :: "State \<Rightarrow> State" where
  "functionFooter s =
     (let frame = compiler s;
          (f, s1) = endCompiler s;
          (constant, s2) = makeConstant (FUNCTION_VAL f) s1;
          s3 = emitBytes (Op OP_CLOSURE) (Raw constant) s2
      in emitUpvalues (take (nat (upvalueCount f)) (upvalues frame)) s3)"

text \<open>\<open>classDeclaration\<close> before the loop over the methods: the name, the class scope,
  the superclass clause, up to the brace that opens the body. It returns
  \<open>classCompiler.hasSuperclass\<close>, which only the superclass clause sets.\<close>

definition classHeader :: "State \<Rightarrow> bool \<times> State" where
  "classHeader s =
     (let s1 = consume TOKEN_IDENTIFIER ''Expect class name.'' s;
          className' = previous (parser s1);
          (nameConstant, s2) = identifierConstant (previous (parser s1)) s1;
          s3 = declareVariable s2;
          s4 = emitBytes (Op OP_CLASS) (Raw nameConstant) s3;
          s5 = defineVariable nameConstant s4;
          s6 = s5\<lparr>currentClass :=
                   \<lparr>className = previous (parser s5), hasSuperclass = False\<rparr> # currentClass s5\<rparr>;
          (m, s7) = match TOKEN_LESS s6;
          s8 = (if m then superclassClause className' s7 else s7);
          s9 = namedVariable className' False s8
      in (m, consume TOKEN_LEFT_BRACE ''Expect '{' before class body.'' s9))"

text \<open>\<open>classDeclaration\<close> after the loop over the methods.\<close>

definition classFooter :: "bool \<Rightarrow> State \<Rightarrow> State" where
  "classFooter hasSuperclass' s =
     (let s1 = consume TOKEN_RIGHT_BRACE ''Expect '}' after class body.'' s;
          s2 = emitByte (Op OP_POP) s1;
          s3 = (if hasSuperclass' then endScope s2 else s2)
      in s3\<lparr>currentClass := tl (currentClass s3)\<rparr>)"

text \<open>\<open>ifStatement\<close> before the then-branch, and between the two branches.\<close>

definition ifCondition :: "State \<Rightarrow> int \<times> State" where
  "ifCondition s =
     (let s1 = consume TOKEN_LEFT_PAREN ''Expect '(' after 'if'.'' s;
          s2 = expression s1;
          s3 = consume TOKEN_RIGHT_PAREN ''Expect ')' after condition.'' s2;
          (thenJump, s4) = emitJump (Op OP_JUMP_IF_FALSE) s3
      in (thenJump, emitByte (Op OP_POP) s4))"

definition ifElse :: "int \<Rightarrow> State \<Rightarrow> int \<times> bool \<times> State" where
  "ifElse thenJump s =
     (let (elseJump, s1) = emitJump (Op OP_JUMP) s;
          s2 = patchJump thenJump s1;
          s3 = emitByte (Op OP_POP) s2;
          (m, s4) = match TOKEN_ELSE s3
      in (elseJump, m, s4))"

text \<open>\<open>whileStatment\<close> before the body.\<close>

definition whileCondition :: "State \<Rightarrow> int \<times> int \<times> State" where
  "whileCondition s =
     (let loopStart = count (currentChunk s);
          s1 = consume TOKEN_LEFT_PAREN ''Expect '(' after 'while'.'' s;
          s2 = expression s1;
          s3 = consume TOKEN_RIGHT_PAREN ''Expect ')' after condition.'' s2;
          (exitJump, s4) = emitJump (Op OP_JUMP_IF_FALSE) s3
      in (loopStart, exitJump, emitByte (Op OP_POP) s4))"

text \<open>\<open>forStatement\<close> before the body: the scope and the three clauses.\<close>

definition forHeader :: "State \<Rightarrow> int \<times> int \<times> State" where
  "forHeader s =
     (let s1 = beginScope s;
          s2 = consume TOKEN_LEFT_PAREN ''Expect '(' after 'for'.'' s1
      in forClauses (forInitializer s2))"

text \<open>
  Declarations and statements. \<open>blockLoop\<close> and \<open>methodLoop\<close> are the \<open>while\<close> loops of
  \<open>block\<close> and of \<open>classDeclaration\<close>.
\<close>

function declaration' :: "State \<Rightarrow> State"
  and statement :: "State \<Rightarrow> State"
  and block :: "State \<Rightarrow> State"
  and blockLoop :: "State \<Rightarrow> State"
  and function' :: "FunctionType \<Rightarrow> State \<Rightarrow> State"
  and method' :: "State \<Rightarrow> State"
  and methodLoop :: "State \<Rightarrow> State"
  and classDeclaration :: "State \<Rightarrow> State"
  and funDeclaration :: "State \<Rightarrow> State"
  and ifStatement :: "State \<Rightarrow> State"
  and whileStatment :: "State \<Rightarrow> State"
  and forStatement :: "State \<Rightarrow> State"
where
  "declaration' s =
     (let (m1, s1) = match TOKEN_CLASS s;
          s' = (if m1 then classDeclaration s1
                else (let (m2, s2) = match TOKEN_FUN s1 in
                      if m2 then funDeclaration s2
                      else (let (m3, s3) = match TOKEN_VAR s2 in
                            if m3 then varDeclaration s3 else statement s3)))
      in if panicMode (parser s') then synchronize s' else s')"
| "statement s =
     (let (m1, s1) = match TOKEN_PRINT s in
      if m1 then printStatement s1
      else (let (m2, s2) = match TOKEN_IF s1 in
      if m2 then ifStatement s2
      else (let (m3, s3) = match TOKEN_RETURN s2 in
      if m3 then returnStatement s3
      else (let (m4, s4) = match TOKEN_WHILE s3 in
      if m4 then whileStatment s4
      else (let (m5, s5) = match TOKEN_FOR s4 in
      if m5 then forStatement s5
      else (let (m6, s6) = match TOKEN_LEFT_BRACE s5 in
      if m6 then endScope (block (beginScope s6))
      else expressionStatement s6))))))"
| "block s = consume TOKEN_RIGHT_BRACE ''Expect '}' after block.'' (blockLoop s)"
| "blockLoop s =
     (if \<not> check TOKEN_RIGHT_BRACE s \<and> \<not> check TOKEN_EOF s
      then blockLoop (declaration' s) else s)"
| "function' type s = functionFooter (block (functionHeader type s))"
| "method' s =
     (let s1 = consume TOKEN_IDENTIFIER ''Expect method name.'' s;
          (constant, s2) = identifierConstant (previous (parser s1)) s1;
          type = (if lexeme (previous (parser s2)) = ''init''
                  then TYPE_INITIALIZER else TYPE_METHOD);
          s3 = function' type s2
      in emitBytes (Op OP_METHOD) (Raw constant) s3)"
| "methodLoop s =
     (if \<not> check TOKEN_RIGHT_BRACE s \<and> \<not> check TOKEN_EOF s
      then methodLoop (method' s) else s)"
| "classDeclaration s =
     (let (hasSuperclass', s1) = classHeader s;
          s2 = methodLoop s1
      in classFooter hasSuperclass' s2)"
| "funDeclaration s =
     (let (global, s1) = parseVariable ''Expect function name.'' s;
          s2 = markInitialized s1;
          s3 = function' TYPE_FUNCTION s2
      in defineVariable global s3)"
| "ifStatement s =
     (let (thenJump, s1) = ifCondition s;
          s2 = statement s1;
          (elseJump, m, s3) = ifElse thenJump s2;
          s4 = (if m then statement s3 else s3)
      in patchJump elseJump s4)"
| "whileStatment s =
     (let (loopStart, exitJump, s1) = whileCondition s;
          s2 = statement s1;
          s3 = emitLoop loopStart s2;
          s4 = patchJump exitJump s3
      in emitByte (Op OP_POP) s4)"
| "forStatement s =
     (let (loopStart, exitJump, s1) = forHeader s;
          s2 = statement s1;
          s3 = emitLoop loopStart s2;
          s4 = (if exitJump \<noteq> -1 then emitByte (Op OP_POP) (patchJump exitJump s3) else s3)
      in endScope s4)"
  by pat_completeness auto


abbreviation (input) stmt_dom where
  "stmt_dom \<equiv> declaration'_statement_block_blockLoop_function'_method'_methodLoop_classDeclaration_funDeclaration_ifStatement_whileStatment_forStatement_dom"

lemmas stmt_pinduct = declaration'_statement_block_blockLoop_function'_method'_methodLoop_classDeclaration_funDeclaration_ifStatement_whileStatment_forStatement.pinduct

lemmas stmt_psimps = declaration'.psimps statement.psimps block.psimps blockLoop.psimps
  function'.psimps method'.psimps methodLoop.psimps classDeclaration.psimps
  funDeclaration.psimps ifStatement.psimps whileStatment.psimps forStatement.psimps

text \<open>A property of the state that every step of the compiler keeps.\<close>

definition stmt_prims :: "(State \<Rightarrow> bool) \<Rightarrow> bool" where
  "stmt_prims I \<longleftrightarrow>
     expr_prims I \<and>
     (\<forall>s. I s \<longrightarrow> I (beginScope s)) \<and>
     (\<forall>s. I s \<longrightarrow> I (endScope s)) \<and>
     (\<forall>s. I s \<longrightarrow> I (declareVariable s)) \<and>
     (\<forall>s nm. I s \<longrightarrow> I (addLocal nm s)) \<and>
     (\<forall>s. I s \<longrightarrow> I (markInitialized s)) \<and>
     (\<forall>s t. I s \<longrightarrow> I (initCompiler t s)) \<and>
     (\<forall>s. I s \<longrightarrow> I (snd (endCompiler s))) \<and>
     (\<forall>s n. I s \<longrightarrow>
        I (s\<lparr>compiler := (compiler s)\<lparr>func := set_arity n (func (compiler s))\<rparr>\<rparr>)) \<and>
     (\<forall>s ccs. I s \<longrightarrow> I (s\<lparr>currentClass := ccs\<rparr>)) \<and>
     (\<forall>s. I s \<longrightarrow> I (s\<lparr>parser := (parser s)\<lparr>panicMode := False\<rparr>\<rparr>))"

lemma stmt_prims_expr: "stmt_prims I \<Longrightarrow> expr_prims I"
  by (simp add: stmt_prims_def)

lemma stmt_primsD1:
  assumes "stmt_prims I" "I s"
  shows "I (beginScope s)" "I (endScope s)" "I (declareVariable s)" "I (addLocal nm s)"
    "I (markInitialized s)" "I (initCompiler t s)" "I (snd (endCompiler s))"
    "I (s\<lparr>compiler := (compiler s)\<lparr>func := set_arity n (func (compiler s))\<rparr>\<rparr>)"
    "I (s\<lparr>currentClass := ccs\<rparr>)"
    "I (s\<lparr>parser := (parser s)\<lparr>panicMode := False\<rparr>\<rparr>)"
    "I (defineVariable g s)" "I (snd (parseVariable m s))" "I (emitReturn s)"
    "I (emitLoop j s)"
  using assms expr_primsD[OF stmt_prims_expr[OF assms(1)]]
  by (simp_all add: stmt_prims_def defineVariable_def parseVariable_def emitReturn_def
      emitLoop_def Let_def case_prod_beta)

lemma emitUpvalues_preserves:
  assumes "stmt_prims I"
  shows "I s \<Longrightarrow> I (emitUpvalues us s)"
  by (induct us arbitrary: s) (simp_all add: expr_primsD[OF stmt_prims_expr[OF assms]])

lemma synchronizeLoop_preserves:
  assumes "stmt_prims I"
  shows "I s \<Longrightarrow> I (synchronizeLoop s)"
proof (induct s rule: synchronizeLoop.induct)
  case (1 s)
  then show ?case
    by (subst synchronizeLoop.simps)
       (simp add: expr_primsD[OF stmt_prims_expr[OF assms]])
qed

lemma parameterLoop_preserves:
  assumes "stmt_prims I"
  shows "I s \<Longrightarrow> I (parameterLoop s)"
proof (induct s rule: parameterLoop.induct)
  case (1 s)
  note D = expr_primsD[OF stmt_prims_expr[OF assms]] stmt_primsD1[OF assms]
  define s2 where "s2 = (let f = func (compiler s);
          s1 = s\<lparr>compiler := (compiler s)\<lparr>func := set_arity (arity f + 1) f\<rparr>\<rparr>
      in (if arity (func (compiler s1)) > 255
                then errorAtCurrent ''Can't have more than 255 parameters.'' s1 else s1))"
  define s4 where "s4 = defineVariable (fst (parseVariable ''Expect parameter name.'' s2))
        (snd (parseVariable ''Expect parameter name.'' s2))"
  have eq: "parameterLoop s =
      (if fst (match TOKEN_COMMA s4) then parameterLoop (snd (match TOKEN_COMMA s4))
       else snd (match TOKEN_COMMA s4))"
    by (subst parameterLoop.simps) (simp add: s4_def s2_def Let_def case_prod_beta)
  have "I s2" using 1(2) by (simp add: s2_def Let_def D)
  then have "I s4" by (simp add: s4_def D)
  then have I5: "I (snd (match TOKEN_COMMA s4))" by (simp add: D)
  show ?case
  proof (cases "fst (match TOKEN_COMMA s4)")
    case True
    have "I (parameterLoop (snd (match TOKEN_COMMA s4)))"
      using 1(1) True I5 by (simp add: s4_def s2_def Let_def)
    then show ?thesis using True by (simp add: eq)
  next
    case False
    then show ?thesis using I5 by (simp add: eq)
  qed
qed


lemma stmt_primsD2:
  assumes "stmt_prims I" "I s"
  shows "I (varDeclaration s)" "I (expressionStatement s)" "I (printStatement s)"
    "I (returnStatement s)" "I (synchronize s)" "I (superclassClause nm s)"
    "I (forInitializer s)" "I (snd (snd (forClauses s)))"
  using assms expr_primsD[OF stmt_prims_expr[OF assms(1)]] stmt_primsD1[OF assms(1)]
    expr_preserves[OF stmt_prims_expr[OF assms(1)]] synchronizeLoop_preserves[OF assms(1)]
  by (simp_all add: varDeclaration_def expressionStatement_def printStatement_def
      returnStatement_def synchronize_def superclassClause_def forInitializer_def
      forClauses_def Let_def case_prod_beta split: list.split)

lemma stmt_primsD3:
  assumes "stmt_prims I" "I s"
  shows "I (functionHeader t s)" "I (functionFooter s)" "I (snd (classHeader s))"
    "I (classFooter b s)" "I (snd (ifCondition s))" "I (snd (snd (ifElse j s)))"
    "I (snd (snd (whileCondition s)))" "I (snd (snd (forHeader s)))"
  using assms expr_primsD[OF stmt_prims_expr[OF assms(1)]] stmt_primsD1[OF assms(1)]
    stmt_primsD2[OF assms(1)] expr_preserves[OF stmt_prims_expr[OF assms(1)]]
    parameterLoop_preserves[OF assms(1)] emitUpvalues_preserves[OF assms(1)]
  by (simp_all add: functionHeader_def functionFooter_def classHeader_def classFooter_def
      ifCondition_def ifElse_def whileCondition_def forHeader_def Let_def case_prod_beta)

lemma stmt_preserves_dom:
  assumes P: "stmt_prims I"
  shows "stmt_dom (Inl (Inl (Inl s))) \<Longrightarrow> I s \<Longrightarrow> I (declaration' s)"
    and "stmt_dom (Inl (Inl (Inr (Inl s)))) \<Longrightarrow> I s \<Longrightarrow> I (statement s)"
    and "stmt_dom (Inl (Inl (Inr (Inr s)))) \<Longrightarrow> I s \<Longrightarrow> I (block s)"
    and "stmt_dom (Inl (Inr (Inl s))) \<Longrightarrow> I s \<Longrightarrow> I (blockLoop s)"
    and "stmt_dom (Inl (Inr (Inr (Inl (t, s))))) \<Longrightarrow> I s \<Longrightarrow> I (function' t s)"
    and "stmt_dom (Inl (Inr (Inr (Inr s)))) \<Longrightarrow> I s \<Longrightarrow> I (method' s)"
    and "stmt_dom (Inr (Inl (Inl s))) \<Longrightarrow> I s \<Longrightarrow> I (methodLoop s)"
    and "stmt_dom (Inr (Inl (Inr (Inl s)))) \<Longrightarrow> I s \<Longrightarrow> I (classDeclaration s)"
    and "stmt_dom (Inr (Inl (Inr (Inr s)))) \<Longrightarrow> I s \<Longrightarrow> I (funDeclaration s)"
    and "stmt_dom (Inr (Inr (Inl s))) \<Longrightarrow> I s \<Longrightarrow> I (ifStatement s)"
    and "stmt_dom (Inr (Inr (Inr (Inl s)))) \<Longrightarrow> I s \<Longrightarrow> I (whileStatment s)"
    and "stmt_dom (Inr (Inr (Inr (Inr s)))) \<Longrightarrow> I s \<Longrightarrow> I (forStatement s)"
proof (induct rule: stmt_pinduct)
  case (1 s)
  note E = stmt_prims_expr[OF P]
  note D = expr_primsD[OF E] stmt_primsD1[OF P] stmt_primsD2[OF P] stmt_primsD3[OF P] expr_preserves[OF E]
  from 1 show ?case
    by (simp add: stmt_psimps Let_def case_prod_beta D)
next
  case (2 s)
  note E = stmt_prims_expr[OF P]
  note D = expr_primsD[OF E] stmt_primsD1[OF P] stmt_primsD2[OF P] stmt_primsD3[OF P] expr_preserves[OF E]
  from 2 show ?case
    by (simp add: stmt_psimps Let_def case_prod_beta D)
next
  case (3 s)
  note E = stmt_prims_expr[OF P]
  note D = expr_primsD[OF E] stmt_primsD1[OF P] stmt_primsD2[OF P] stmt_primsD3[OF P] expr_preserves[OF E]
  from 3 show ?case
    by (simp add: stmt_psimps Let_def case_prod_beta D)
next
  case (4 s)
  note E = stmt_prims_expr[OF P]
  note D = expr_primsD[OF E] stmt_primsD1[OF P] stmt_primsD2[OF P] stmt_primsD3[OF P] expr_preserves[OF E]
  from 4 show ?case
    by (simp add: stmt_psimps Let_def case_prod_beta D)
next
  case (5 t s)
  note E = stmt_prims_expr[OF P]
  note D = expr_primsD[OF E] stmt_primsD1[OF P] stmt_primsD2[OF P] stmt_primsD3[OF P] expr_preserves[OF E]
    parameterLoop_preserves[OF P] emitUpvalues_preserves[OF P]
  from 5 show ?case
    by (simp add: stmt_psimps Let_def case_prod_beta D)
next
  case (6 s)
  note E = stmt_prims_expr[OF P]
  note D = expr_primsD[OF E] stmt_primsD1[OF P] stmt_primsD2[OF P] stmt_primsD3[OF P] expr_preserves[OF E]
  from 6 show ?case
    by (simp add: stmt_psimps Let_def case_prod_beta D)
next
  case (7 s)
  note E = stmt_prims_expr[OF P]
  note D = expr_primsD[OF E] stmt_primsD1[OF P] stmt_primsD2[OF P] stmt_primsD3[OF P] expr_preserves[OF E]
  from 7 show ?case
    by (simp add: stmt_psimps Let_def case_prod_beta D)
next
  case (8 s)
  note E = stmt_prims_expr[OF P]
  note D = expr_primsD[OF E] stmt_primsD1[OF P] stmt_primsD2[OF P] stmt_primsD3[OF P] expr_preserves[OF E]
  from 8 show ?case
    by (simp add: stmt_psimps Let_def case_prod_beta D)
next
  case (9 s)
  note E = stmt_prims_expr[OF P]
  note D = expr_primsD[OF E] stmt_primsD1[OF P] stmt_primsD2[OF P] stmt_primsD3[OF P] expr_preserves[OF E]
  from 9 show ?case
    by (simp add: stmt_psimps Let_def case_prod_beta D)
next
  case (10 s)
  note E = stmt_prims_expr[OF P]
  note D = expr_primsD[OF E] stmt_primsD1[OF P] stmt_primsD2[OF P] stmt_primsD3[OF P] expr_preserves[OF E]
  from 10 show ?case
    by (simp add: stmt_psimps Let_def case_prod_beta D)
next
  case (11 s)
  note E = stmt_prims_expr[OF P]
  note D = expr_primsD[OF E] stmt_primsD1[OF P] stmt_primsD2[OF P] stmt_primsD3[OF P] expr_preserves[OF E]
  from 11 show ?case
    by (simp add: stmt_psimps Let_def case_prod_beta D)
next
  case (12 s)
  note E = stmt_prims_expr[OF P]
  note D = expr_primsD[OF E] stmt_primsD1[OF P] stmt_primsD2[OF P] stmt_primsD3[OF P] expr_preserves[OF E]
  from 12 show ?case
    by (simp add: stmt_psimps Let_def case_prod_beta D)
qed


section \<open>Termination of the statement functions\<close>

lemma msr_below_stmt_prims:
  "stmt_prims (\<lambda>s. msr s \<le> n)" "stmt_prims (\<lambda>s. msr s < n)"
  by (simp_all add: stmt_prims_def msr_below_prims)

text \<open>Since \<open>s0\<close>, either a token was consumed or the scanner and the current token are
  as they were.\<close>

definition progress :: "State \<Rightarrow> State \<Rightarrow> bool" where
  "progress s0 s \<longleftrightarrow>
     msr s < msr s0 \<or> (scanner s = scanner s0 \<and> current (parser s) = current (parser s0))"

lemma progress_refl [simp]: "progress s s"
  by (simp add: progress_def)

lemma progress_advance:
  "ttype (current (parser s0)) \<noteq> TOKEN_EOF \<Longrightarrow> progress s0 s \<Longrightarrow> progress s0 (advance s)"
  using msr_advance[of s] msr_advance_strict[of s] msr_cong[of s s0]
  by (auto simp: progress_def)

lemma progress_same:
  "scanner s' = scanner s \<Longrightarrow> current (parser s') = current (parser s) \<Longrightarrow>
   progress s0 s \<Longrightarrow> progress s0 s'"
  using msr_cong[of s' s] by (auto simp: progress_def)

lemma progress_prims:
  assumes "ttype (current (parser s0)) \<noteq> TOKEN_EOF"
  shows "stmt_prims (progress s0)"
  unfolding stmt_prims_def expr_prims_def
  by (intro conjI allI impI progress_advance[OF assms]; (assumption | erule progress_same[rotated 2]; simp))

lemma progressD:
  "progress s0 s \<Longrightarrow> msr s < msr s0 \<or> (msr s = msr s0 \<and> current (parser s) = current (parser s0))"
  using msr_cong[of s s0] by (auto simp: progress_def)

lemma match_strict:
  "fst (match t s) \<Longrightarrow> t \<noteq> TOKEN_EOF \<Longrightarrow> msr s \<le> n \<Longrightarrow> msr (snd (match t s)) < n"
  using msr_advance_strict[of s] by (auto simp: match_def check_def split: if_splits)

lemma match_False: "\<not> fst (match t s) \<Longrightarrow> snd (match t s) = s"
  by (auto simp: match_def split: if_splits)

lemma consume_strict:
  "check t s \<Longrightarrow> t \<noteq> TOKEN_EOF \<Longrightarrow> msr s \<le> n \<Longrightarrow> msr (consume t m s) < n"
  using msr_advance_strict[of s] by (auto simp: consume_def check_def)

lemma expression_strict:
  assumes "ttype (current (parser s)) \<noteq> TOKEN_EOF"
  shows "msr (expression s) < msr s"
proof -
  have a: "msr (advance s) < msr s" by (rule msr_advance_strict[OF assms])
  show ?thesis
    by (simp add: expression.simps parsePrecedence.simps Let_def case_prod_beta a
        msr_less split: option.split)
qed

lemma expressionStatement_strict:
  "ttype (current (parser s)) \<noteq> TOKEN_EOF \<Longrightarrow> msr (expressionStatement s) < msr s"
  using expression_strict[of s] by (simp add: expressionStatement_def)


lemma msr_nonrec [simp]:
  "msr s \<le> n \<Longrightarrow> msr (varDeclaration s) \<le> n" "msr s < n \<Longrightarrow> msr (varDeclaration s) < n"
  "msr s \<le> n \<Longrightarrow> msr (expressionStatement s) \<le> n" "msr s < n \<Longrightarrow> msr (expressionStatement s) < n"
  "msr s \<le> n \<Longrightarrow> msr (printStatement s) \<le> n" "msr s < n \<Longrightarrow> msr (printStatement s) < n"
  "msr s \<le> n \<Longrightarrow> msr (returnStatement s) \<le> n" "msr s < n \<Longrightarrow> msr (returnStatement s) < n"
  "msr s \<le> n \<Longrightarrow> msr (synchronize s) \<le> n" "msr s < n \<Longrightarrow> msr (synchronize s) < n"
  "msr s \<le> n \<Longrightarrow> msr (functionHeader t s) \<le> n" "msr s < n \<Longrightarrow> msr (functionHeader t s) < n"
  "msr s \<le> n \<Longrightarrow> msr (functionFooter s) \<le> n" "msr s < n \<Longrightarrow> msr (functionFooter s) < n"
  "msr s \<le> n \<Longrightarrow> msr (snd (classHeader s)) \<le> n" "msr s < n \<Longrightarrow> msr (snd (classHeader s)) < n"
  "msr s \<le> n \<Longrightarrow> msr (classFooter b s) \<le> n" "msr s < n \<Longrightarrow> msr (classFooter b s) < n"
  "msr s \<le> n \<Longrightarrow> msr (snd (ifCondition s)) \<le> n" "msr s < n \<Longrightarrow> msr (snd (ifCondition s)) < n"
  "msr s \<le> n \<Longrightarrow> msr (snd (snd (ifElse j s))) \<le> n" "msr s < n \<Longrightarrow> msr (snd (snd (ifElse j s))) < n"
  "msr s \<le> n \<Longrightarrow> msr (snd (snd (whileCondition s))) \<le> n"
  "msr s < n \<Longrightarrow> msr (snd (snd (whileCondition s))) < n"
  "msr s \<le> n \<Longrightarrow> msr (snd (snd (forHeader s))) \<le> n"
  "msr s < n \<Longrightarrow> msr (snd (snd (forHeader s))) < n"
  "msr s \<le> n \<Longrightarrow> msr (emitLoop j s) \<le> n" "msr s < n \<Longrightarrow> msr (emitLoop j s) < n"
  using stmt_primsD1[OF msr_below_stmt_prims(1), of s n]
    stmt_primsD2[OF msr_below_stmt_prims(1), of s n]
    stmt_primsD3[OF msr_below_stmt_prims(1), of s n]
    stmt_primsD1[OF msr_below_stmt_prims(2), of s n]
    stmt_primsD2[OF msr_below_stmt_prims(2), of s n]
    stmt_primsD3[OF msr_below_stmt_prims(2), of s n]
  by simp_all

lemma stmt_msr_dom:
  shows "stmt_dom (Inl (Inl (Inl s))) \<Longrightarrow>
      (\<forall>n. (msr s \<le> n \<longrightarrow> msr (declaration' s) \<le> n) \<and> (msr s < n \<longrightarrow> msr (declaration' s) < n)) \<and>
      (ttype (current (parser s)) \<noteq> TOKEN_EOF \<longrightarrow> msr (declaration' s) < msr s)"
    and "stmt_dom (Inl (Inl (Inr (Inl s)))) \<Longrightarrow>
      (\<forall>n. (msr s \<le> n \<longrightarrow> msr (statement s) \<le> n) \<and> (msr s < n \<longrightarrow> msr (statement s) < n)) \<and>
      (ttype (current (parser s)) \<noteq> TOKEN_EOF \<longrightarrow> msr (statement s) < msr s)"
    and "stmt_dom (Inl (Inl (Inr (Inr s)))) \<Longrightarrow>
      (\<forall>n. (msr s \<le> n \<longrightarrow> msr (block s) \<le> n) \<and> (msr s < n \<longrightarrow> msr (block s) < n)) \<and>
      (ttype (current (parser s)) \<noteq> TOKEN_EOF \<longrightarrow> msr (block s) < msr s)"
    and "stmt_dom (Inl (Inr (Inl s))) \<Longrightarrow>
      (\<forall>n. (msr s \<le> n \<longrightarrow> msr (blockLoop s) \<le> n) \<and> (msr s < n \<longrightarrow> msr (blockLoop s) < n)) \<and>
      (\<not> check TOKEN_RIGHT_BRACE s \<and> \<not> check TOKEN_EOF s \<longrightarrow> msr (blockLoop s) < msr s) \<and>
      (check TOKEN_RIGHT_BRACE s \<longrightarrow> blockLoop s = s)"
    and "stmt_dom (Inl (Inr (Inr (Inl (t, s))))) \<Longrightarrow>
      (\<forall>n. (msr s \<le> n \<longrightarrow> msr (function' t s) \<le> n) \<and> (msr s < n \<longrightarrow> msr (function' t s) < n)) \<and>
      (ttype (current (parser s)) \<noteq> TOKEN_EOF \<longrightarrow> msr (function' t s) < msr s)"
    and "stmt_dom (Inl (Inr (Inr (Inr s)))) \<Longrightarrow>
      (\<forall>n. (msr s \<le> n \<longrightarrow> msr (method' s) \<le> n) \<and> (msr s < n \<longrightarrow> msr (method' s) < n)) \<and>
      (ttype (current (parser s)) \<noteq> TOKEN_EOF \<longrightarrow> msr (method' s) < msr s)"
    and "stmt_dom (Inr (Inl (Inl s))) \<Longrightarrow>
      (\<forall>n. (msr s \<le> n \<longrightarrow> msr (methodLoop s) \<le> n) \<and> (msr s < n \<longrightarrow> msr (methodLoop s) < n))"
    and "stmt_dom (Inr (Inl (Inr (Inl s)))) \<Longrightarrow>
      (\<forall>n. (msr s \<le> n \<longrightarrow> msr (classDeclaration s) \<le> n) \<and> (msr s < n \<longrightarrow> msr (classDeclaration s) < n))"
    and "stmt_dom (Inr (Inl (Inr (Inr s)))) \<Longrightarrow>
      (\<forall>n. (msr s \<le> n \<longrightarrow> msr (funDeclaration s) \<le> n) \<and> (msr s < n \<longrightarrow> msr (funDeclaration s) < n))"
    and "stmt_dom (Inr (Inr (Inl s))) \<Longrightarrow>
      (\<forall>n. (msr s \<le> n \<longrightarrow> msr (ifStatement s) \<le> n) \<and> (msr s < n \<longrightarrow> msr (ifStatement s) < n))"
    and "stmt_dom (Inr (Inr (Inr (Inl s)))) \<Longrightarrow>
      (\<forall>n. (msr s \<le> n \<longrightarrow> msr (whileStatment s) \<le> n) \<and> (msr s < n \<longrightarrow> msr (whileStatment s) < n))"
    and "stmt_dom (Inr (Inr (Inr (Inr s)))) \<Longrightarrow>
      (\<forall>n. (msr s \<le> n \<longrightarrow> msr (forStatement s) \<le> n) \<and> (msr s < n \<longrightarrow> msr (forStatement s) < n))"
proof (induct rule: stmt_pinduct)
  case (1 s)
  note G = stmt_preserves_dom(1)[OF msr_below_stmt_prims(1) 1(1)]
    stmt_preserves_dom(1)[OF msr_below_stmt_prims(2) 1(1)]
  have "ttype (current (parser s)) \<noteq> TOKEN_EOF \<Longrightarrow> msr (declaration' s) < msr s"
    using 1(2-)
    by (simp add: declaration'.psimps[OF 1(1)] Let_def case_prod_beta match_strict match_False)
  then show ?case using G by blast
next
  case (2 s)
  note G = stmt_preserves_dom(2)[OF msr_below_stmt_prims(1) 2(1)]
    stmt_preserves_dom(2)[OF msr_below_stmt_prims(2) 2(1)]
  have "ttype (current (parser s)) \<noteq> TOKEN_EOF \<Longrightarrow> msr (statement s) < msr s"
    using 2(2-)
    by (simp add: statement.psimps[OF 2(1)] Let_def case_prod_beta match_strict match_False
        expressionStatement_strict)
  then show ?case using G by blast
next
  case (3 s)
  note G = stmt_preserves_dom(3)[OF msr_below_stmt_prims(1) 3(1)]
    stmt_preserves_dom(3)[OF msr_below_stmt_prims(2) 3(1)]
  have "msr (block s) < msr s" if ne: "ttype (current (parser s)) \<noteq> TOKEN_EOF"
  proof (cases "check TOKEN_RIGHT_BRACE s")
    case True
    then show ?thesis using 3(2)
      by (simp add: block.psimps[OF 3(1)] consume_strict)
  next
    case False
    then show ?thesis using 3(2) ne
      by (simp add: block.psimps[OF 3(1)] check_def)
  qed
  then show ?case using G by blast
next
  case (4 s)
  note G = stmt_preserves_dom(4)[OF msr_below_stmt_prims(1) 4(1)]
    stmt_preserves_dom(4)[OF msr_below_stmt_prims(2) 4(1)]
  have a: "check TOKEN_RIGHT_BRACE s \<Longrightarrow> blockLoop s = s"
    by (simp add: blockLoop.psimps[OF 4(1)])
  have "msr (blockLoop s) < msr s" if "\<not> check TOKEN_RIGHT_BRACE s" "\<not> check TOKEN_EOF s"
    using that 4(2-)
    by (simp add: blockLoop.psimps[OF 4(1)] check_def)
  then show ?case using G a by blast
next
  case (5 t s)
  note G = stmt_preserves_dom(5)[OF msr_below_stmt_prims(1) 5(1)]
    stmt_preserves_dom(5)[OF msr_below_stmt_prims(2) 5(1)]
  have "msr (function' t s) < msr s" if ne: "ttype (current (parser s)) \<noteq> TOKEN_EOF"
  proof -
    have "progress s (functionHeader t s)"
      by (rule stmt_primsD3(1)[OF progress_prims[OF ne] progress_refl])
    then have "msr (block (functionHeader t s)) < msr s"
      using 5(2) ne by (auto dest!: progressD)
    then show ?thesis by (simp add: function'.psimps[OF 5(1)])
  qed
  then show ?case using G by blast
next
  case (6 s)
  note G = stmt_preserves_dom(6)[OF msr_below_stmt_prims(1) 6(1)]
    stmt_preserves_dom(6)[OF msr_below_stmt_prims(2) 6(1)]
  have "msr (method' s) < msr s" if ne: "ttype (current (parser s)) \<noteq> TOKEN_EOF"
  proof -
    define s2 where "s2 = snd (identifierConstant
        (previous (parser (consume TOKEN_IDENTIFIER ''Expect method name.'' s)))
        (consume TOKEN_IDENTIFIER ''Expect method name.'' s))"
    have "progress s s2"
      unfolding s2_def
      by (intro expr_primsD[OF stmt_prims_expr[OF progress_prims[OF ne]]] progress_refl)
    then have "msr (function' (if lexeme (previous (parser s2)) = ''init''
                  then TYPE_INITIALIZER else TYPE_METHOD) s2) < msr s"
      using 6(2)[OF refl refl refl] ne unfolding s2_def[symmetric]
      by (auto dest!: progressD)
    then show ?thesis
      by (simp add: method'.psimps[OF 6(1)] Let_def case_prod_beta s2_def)
  qed
  then show ?case using G by blast
next
  case (7 s)
  show ?case
    using stmt_preserves_dom(7)[OF msr_below_stmt_prims(1) 7(1)]
      stmt_preserves_dom(7)[OF msr_below_stmt_prims(2) 7(1)] by blast
next
  case (8 s)
  show ?case
    using stmt_preserves_dom(8)[OF msr_below_stmt_prims(1) 8(1)]
      stmt_preserves_dom(8)[OF msr_below_stmt_prims(2) 8(1)] by blast
next
  case (9 s)
  show ?case
    using stmt_preserves_dom(9)[OF msr_below_stmt_prims(1) 9(1)]
      stmt_preserves_dom(9)[OF msr_below_stmt_prims(2) 9(1)] by blast
next
  case (10 s)
  show ?case
    using stmt_preserves_dom(10)[OF msr_below_stmt_prims(1) 10(1)]
      stmt_preserves_dom(10)[OF msr_below_stmt_prims(2) 10(1)] by blast
next
  case (11 s)
  show ?case
    using stmt_preserves_dom(11)[OF msr_below_stmt_prims(1) 11(1)]
      stmt_preserves_dom(11)[OF msr_below_stmt_prims(2) 11(1)] by blast
next
  case (12 s)
  show ?case
    using stmt_preserves_dom(12)[OF msr_below_stmt_prims(1) 12(1)]
      stmt_preserves_dom(12)[OF msr_below_stmt_prims(2) 12(1)] by blast
qed


type_synonym stmt_args =
  "((State + (State + State)) + (State + ((FunctionType \<times> State) + State))) +
   ((State + (State + State)) + (State + (State + State)))"

fun stmt_state :: "stmt_args \<Rightarrow> State" where
  "stmt_state (Inl (Inl (Inl s))) = s"
| "stmt_state (Inl (Inl (Inr (Inl s)))) = s"
| "stmt_state (Inl (Inl (Inr (Inr s)))) = s"
| "stmt_state (Inl (Inr (Inl s))) = s"
| "stmt_state (Inl (Inr (Inr (Inl (t, s))))) = s"
| "stmt_state (Inl (Inr (Inr (Inr s)))) = s"
| "stmt_state (Inr (Inl (Inl s))) = s"
| "stmt_state (Inr (Inl (Inr (Inl s)))) = s"
| "stmt_state (Inr (Inl (Inr (Inr s)))) = s"
| "stmt_state (Inr (Inr (Inl s))) = s"
| "stmt_state (Inr (Inr (Inr (Inl s)))) = s"
| "stmt_state (Inr (Inr (Inr (Inr s)))) = s"

fun stmt_rank :: "stmt_args \<Rightarrow> nat" where
  "stmt_rank (Inl (Inl (Inl s))) = 1"
| "stmt_rank (Inl (Inl (Inr (Inl s)))) = 0"
| "stmt_rank (Inl (Inl (Inr (Inr s)))) = 3"
| "stmt_rank (Inl (Inr (Inl s))) = 2"
| "stmt_rank (Inl (Inr (Inr (Inl (t, s))))) = 4"
| "stmt_rank (Inl (Inr (Inr (Inr s)))) = 5"
| "stmt_rank (Inr (Inl (Inl s))) = 6"
| "stmt_rank (Inr (Inl (Inr (Inl s)))) = 7"
| "stmt_rank (Inr (Inl (Inr (Inr s)))) = 5"
| "stmt_rank (Inr (Inr (Inl s))) = 1"
| "stmt_rank (Inr (Inr (Inr (Inl s)))) = 1"
| "stmt_rank (Inr (Inr (Inr (Inr s)))) = 1"

definition stmt_rel :: "(stmt_args \<times> stmt_args) set" where
  "stmt_rel = {(a, b). msr (stmt_state a) < msr (stmt_state b) \<or>
                 msr (stmt_state a) \<le> msr (stmt_state b) \<and> stmt_rank a < stmt_rank b}"

lemma wf_stmt_rel: "wf stmt_rel"
proof (rule wf_subset)
  show "wf (inv_image (less_than <*lex*> less_than) (\<lambda>a. (msr (stmt_state a), stmt_rank a)))"
    by (intro wf_inv_image wf_lex_prod wf_less_than)
  show "stmt_rel \<subseteq> inv_image (less_than <*lex*> less_than) (\<lambda>a. (msr (stmt_state a), stmt_rank a))"
    by (auto simp: stmt_rel_def)
qed

lemma stmt_total: "stmt_dom x"
  apply (rule "declaration'_statement_block_blockLoop_function'_method'_methodLoop_classDeclaration_funDeclaration_ifStatement_whileStatment_forStatement.termination"[OF wf_stmt_rel, THEN spec])
  apply (simp_all add: stmt_rel_def stmt_msr_dom match_strict match_False check_def)
  done

termination declaration'
  using stmt_total by blast

lemmas stmt_simps = declaration'.simps statement.simps block.simps blockLoop.simps
  function'.simps method'.simps methodLoop.simps classDeclaration.simps
  funDeclaration.simps ifStatement.simps whileStatment.simps forStatement.simps

declare stmt_simps [simp del]

lemmas stmt_preserves = stmt_preserves_dom[OF _ stmt_total]

lemmas stmt_msr = stmt_msr_dom[OF stmt_total]

section \<open>The entry point\<close>

text \<open>The loop of \<open>compile\<close>: \<open>while (!match(TOKEN_EOF)) declaration();\<close>\<close>

function compileLoop :: "State \<Rightarrow> State" where
  "compileLoop s =
     (let (m, s1) = match TOKEN_EOF s in
      if \<not> m then compileLoop (declaration' s1) else s1)"
  by pat_completeness auto
termination
  by (relation "measure msr") (simp_all add: stmt_msr match_False match_def check_def split: if_splits)

declare compileLoop.simps [simp del]

text \<open>
  The state in which \<open>compile\<close> starts its work on the tokens that the scanner delivers for
  the source: the outermost frame, no class scope, no error. \<open>parser.current\<close> and
  \<open>parser.previous\<close> are what the zero-initialised global holds; they are overwritten
  before they are read.
\<close>

definition initialParser :: Parser where
  "initialParser =
     \<lparr>current = \<lparr>ttype = TOKEN_LEFT_PAREN, lexeme = [], line = 0\<rparr>,
      previous = \<lparr>ttype = TOKEN_LEFT_PAREN, lexeme = [], line = 0\<rparr>,
      hadError = False, panicMode = False\<rparr>"

definition initialState :: "Token list \<Rightarrow> State" where
  "initialState source =
     \<lparr>scanner = source, parser = initialParser,
      compiler = newCompiler TYPE_SCRIPT initialParser, enclosing = [],
      currentClass = [], stderr = [], faults = []\<rparr>"

text \<open>The state of \<open>compile\<close> when the loop over the declarations is left.\<close>

definition compileState :: "Token list \<Rightarrow> State" where
  "compileState source = compileLoop (advance (initialState source))"

definition compile :: "Token list \<Rightarrow> ObjFunction option" where
  "compile source =
     (let (f, s) = endCompiler (compileState source)
      in if hadError (parser s) then None else Some f)"

section \<open>The claims\<close>

subsection \<open>C3: the implicit return\<close>

lemma code_emitByte [simp]:
  "code (currentChunk (emitByte b s)) = code (currentChunk s) @ [b]"
  by (simp add: emitByte_def currentChunk_def set_currentChunk_def writeChunk_def set_chunk_def)

lemma compiler_emitByte [simp]:
  "ftype (compiler (emitByte b s)) = ftype (compiler s)"
  "locals (compiler (emitByte b s)) = locals (compiler s)"
  "upvalues (compiler (emitByte b s)) = upvalues (compiler s)"
  "scopeDepth (compiler (emitByte b s)) = scopeDepth (compiler s)"
  by (simp_all add: emitByte_def set_currentChunk_def)

lemma code_emitReturn:
  "code (currentChunk (emitReturn s)) =
     code (currentChunk s) @
       (if ftype (compiler s) = TYPE_INITIALIZER then [Op OP_GET_LOCAL, Raw 0, Op OP_RETURN]
        else [Op OP_NIL, Op OP_RETURN])"
  by (simp add: emitReturn_def emitBytes_def)

lemma currentChunk_cong: "compiler s' = compiler s \<Longrightarrow> currentChunk s' = currentChunk s"
  by (simp add: currentChunk_def)

text \<open>
  C3. The frame that \<open>endCompiler\<close> finishes ends with the implicit return: \<open>GET_LOCAL 0\<close>,
  \<open>RETURN\<close> if the frame is an initializer, \<open>NIL\<close>, \<open>RETURN\<close> otherwise. A return statement
  whose next token is the semicolon appends the same bytes to the code of the frame.
\<close>

theorem C3_implicit_return:
  "code (chunk (fst (endCompiler s))) =
     code (currentChunk s) @
       (if ftype (compiler s) = TYPE_INITIALIZER then [Op OP_GET_LOCAL, Raw 0, Op OP_RETURN]
        else [Op OP_NIL, Op OP_RETURN]) \<and>
   (check TOKEN_SEMICOLON s \<longrightarrow>
      code (currentChunk (returnStatement s)) =
        code (currentChunk s) @
          (if ftype (compiler s) = TYPE_INITIALIZER then [Op OP_GET_LOCAL, Raw 0, Op OP_RETURN]
           else [Op OP_NIL, Op OP_RETURN]))"
proof (intro conjI impI)
  show "code (chunk (fst (endCompiler s))) =
     code (currentChunk s) @
       (if ftype (compiler s) = TYPE_INITIALIZER then [Op OP_GET_LOCAL, Raw 0, Op OP_RETURN]
        else [Op OP_NIL, Op OP_RETURN])"
    using code_emitReturn[of s] by (simp add: endCompiler_def Let_def currentChunk_def)
next
  assume semi: "check TOKEN_SEMICOLON s"
  define s1 where "s1 = (if ftype (compiler s) = TYPE_SCRIPT
                then error ''Can't return from top-level code.'' s else s)"
  have c1: "compiler s1 = compiler s" by (simp add: s1_def)
  have "check TOKEN_SEMICOLON s1" using semi by (simp add: s1_def check_def)
  then have m: "match TOKEN_SEMICOLON s1 = (True, advance s1)" by (simp add: match_def)
  have "returnStatement s = emitReturn (advance s1)"
    by (simp add: returnStatement_def Let_def m s1_def[symmetric])
  moreover have "compiler (advance s1) = compiler s" by (simp add: c1)
  ultimately show "code (currentChunk (returnStatement s)) =
        code (currentChunk s) @
          (if ftype (compiler s) = TYPE_INITIALIZER then [Op OP_GET_LOCAL, Raw 0, Op OP_RETURN]
           else [Op OP_NIL, Op OP_RETURN])"
    using code_emitReturn[of "advance s1"] by (simp add: currentChunk_def)
qed

text \<open>The statement \<open>return;\<close> in an initializer, after the code \<open>NIL\<close>: the frame is the
  one \<open>initCompiler\<close> makes for an initializer.\<close>

definition C3_initializer :: State where
  "C3_initializer =
     emitByte (Op OP_NIL)
       (advance (initCompiler TYPE_INITIALIZER
          (initialState [\<lparr>ttype = TOKEN_SEMICOLON, lexeme = '';'', line = 3\<rparr>])))"

theorem C3_implicit_return_witness:
  "check TOKEN_SEMICOLON C3_initializer \<and>
   code (currentChunk (returnStatement C3_initializer)) =
     [Op OP_NIL, Op OP_GET_LOCAL, Raw 0, Op OP_RETURN] \<and>
   code (chunk (fst (endCompiler C3_initializer))) =
     [Op OP_NIL, Op OP_GET_LOCAL, Raw 0, Op OP_RETURN]"
proof -
  have a: "check TOKEN_SEMICOLON C3_initializer" by code_simp
  have b: "ftype (compiler C3_initializer) = TYPE_INITIALIZER" by code_simp
  have c: "code (currentChunk C3_initializer) = [Op OP_NIL]" by code_simp
  show ?thesis
    using C3_implicit_return[of C3_initializer] a b c by simp
qed

end
